theory Spec2Isabelle
  imports Main "HOL-Library.Word"
begin

section \<open>Strings of the source language\<close>

text \<open>
  A JavaScript string is a sequence of UTF-16 code units; \<open>length\<close>, \<open>slice\<close> and the
  regular expressions of the source all count code units. So a string is a list of 16-bit words,
  and an ASCII literal of the source is written \<open>js ''...''\<close>.
\<close>

type_synonym jschar = "16 word"
type_synonym jsstring = "jschar list"

definition js :: "string \<Rightarrow> jsstring" where
  "js s = map (\<lambda>c. of_char c) s"

definition us :: jschar where
  "us = 0x5F"

definition dot :: jschar where
  "dot = 0x2E"

definition slash :: jschar where
  "slash = 0x2F"

definition dollar :: jschar where
  "dollar = 0x24"

text \<open>The values of the source that JavaScript treats as false in \<open>a || b\<close> and \<open>!a\<close>:
  an absent (undefined) string and the empty string.\<close>

definition orElse :: "jsstring option \<Rightarrow> jsstring \<Rightarrow> jsstring" where
  "orElse a b = (case a of None \<Rightarrow> b | Some s \<Rightarrow> if s = [] then b else s)"

section \<open>types: the data model\<close>

datatype MediaType = PHOTO | VIDEO | DOCUMENT | AUDIO | VOICE | VIDEO_NOTE | ANIMATION
  | STICKER | UNKNOWN

datatype DownloadStatus = PENDING | DOWNLOADING | COMPLETED | FAILED | PAUSED | CANCELLED

datatype DownloadableType = DOWNLOADABLE | RESTRICTED | EXPIRED | TOO_LARGE | UNSUPPORTED

text \<open>The string value of each member of the enum \<open>MediaType\<close>.\<close>

fun mediaTypeValue :: "MediaType \<Rightarrow> jsstring" where
  "mediaTypeValue PHOTO = js ''photo''"
| "mediaTypeValue VIDEO = js ''video''"
| "mediaTypeValue DOCUMENT = js ''document''"
| "mediaTypeValue AUDIO = js ''audio''"
| "mediaTypeValue VOICE = js ''voice''"
| "mediaTypeValue VIDEO_NOTE = js ''video_note''"
| "mediaTypeValue ANIMATION = js ''animation''"
| "mediaTypeValue STICKER = js ''sticker''"
| "mediaTypeValue UNKNOWN = js ''unknown''"

text \<open>\<open>MediaInfo\<close>. Sizes, ids and dimensions are integers; a \<open>Date\<close> is its
  number of milliseconds since the epoch; an optional field is an \<open>option\<close>.\<close>

record MediaInfo =
  mi_id :: jsstring
  messageId :: int
  chatId :: jsstring
  chatTitle :: jsstring
  mi_type :: MediaType
  mimeType :: "jsstring option"
  fileName :: "jsstring option"
  fileSize :: int
  fileSizeFormatted :: jsstring
  downloadable :: DownloadableType
  downloadableReason :: "jsstring option"
  mi_date :: int
  caption :: "jsstring option"
  duration :: "int option"
  width :: "int option"
  height :: "int option"

text \<open>In \<open>DownloadConfig\<close> the number of retries is a count, a natural number; the other
  numbers are integers.\<close>

record DownloadConfig =
  outputDir :: jsstring
  concurrentDownloads :: int
  chunkSize :: int
  maxRetries :: nat
  retryDelay :: int
  resumeEnabled :: bool
  speedLimit :: "int option"
  fileNameTemplate :: jsstring
  createSubfolders :: bool
  skipExisting :: bool

record FileNameVariables =
  v_id :: jsstring
  v_chatTitle :: jsstring
  v_chatId :: jsstring
  v_date :: jsstring
  v_time :: jsstring
  v_type :: jsstring
  v_originalName :: jsstring
  v_extension :: jsstring
  v_caption :: jsstring
  v_messageId :: jsstring

section \<open>The platform\<close>

text \<open>
  Functions of the JavaScript runtime and of Node that the source calls and that are defined
  outside the repository, taken as parameters: Unicode lower-casing, the rendering of numbers
  and dates, \<open>path.join\<close>, \<open>path.dirname\<close> and \<open>os.homedir()\<close>. Two functions of the repository
  compute with floating point and are parameters as well: \<open>formatFileSize\<close> (logarithm and
  \<open>toFixed\<close>) and the percentage \<open>Math.round((downloaded / total) * 100)\<close> of the
  progress callback.
\<close>

record platform =
  toLowerCase :: "jsstring \<Rightarrow> jsstring"
  numberToString :: "int \<Rightarrow> jsstring"
  toISOString :: "int \<Rightarrow> jsstring"
  toTimeString :: "int \<Rightarrow> jsstring"
  path_join :: "jsstring \<Rightarrow> jsstring \<Rightarrow> jsstring"
  path_dirname :: "jsstring \<Rightarrow> jsstring"
  formatFileSize :: "int \<Rightarrow> jsstring"
  percentage :: "int \<Rightarrow> int \<Rightarrow> int"
  homedir :: jsstring

subsection \<open>\<open>path.extname\<close>\<close>

text \<open>
  Node's \<open>path.extname\<close> (POSIX flavour) scans the path from its last code unit to its
  first, skipping trailing slashes and stopping at the slash that ends the last component. The
  loop state is modelled as it is in Node: \<open>startDot\<close>, \<open>startPart\<close>, \<open>end\<close>
  (\<open>-1\<close> for "not seen"), \<open>matchedSlash\<close> and \<open>preDotState\<close>.
\<close>

record ext_state =
  startDot :: int
  startPart :: int
  endIdx :: int
  matchedSlash :: bool
  preDotState :: int

text \<open>One round of the loop at index \<open>i\<close> reading code unit \<open>c\<close>; the result is
  paired with \<open>True\<close> when the loop executes \<open>break\<close>.\<close>

definition ext_step :: "nat \<Rightarrow> jschar \<Rightarrow> ext_state \<Rightarrow> ext_state \<times> bool" where
  "ext_step i c s =
     (if c = slash then
        (if \<not> matchedSlash s then (s\<lparr>startPart := int i + 1\<rparr>, True) else (s, False))
      else
        (let s1 = (if endIdx s = -1 then s\<lparr>matchedSlash := False, endIdx := int i + 1\<rparr> else s);
             s2 = (if c = dot then
                     (if startDot s1 = -1 then s1\<lparr>startDot := int i\<rparr>
                      else if preDotState s1 \<noteq> 1 then s1\<lparr>preDotState := 1\<rparr> else s1)
                   else if startDot s1 \<noteq> -1 then s1\<lparr>preDotState := -1\<rparr>
                   else s1)
         in (s2, False)))"

text \<open>The loop \<open>for (i = n - 1; i >= 0; --i)\<close>, started with \<open>n = path.length\<close>.\<close>

fun ext_loop :: "jsstring \<Rightarrow> nat \<Rightarrow> ext_state \<Rightarrow> ext_state" where
  "ext_loop p 0 s = s"
| "ext_loop p (Suc i) s =
     (case ext_step i (p ! i) s of (s', brk) \<Rightarrow> if brk then s' else ext_loop p i s')"

definition extname :: "jsstring \<Rightarrow> jsstring" where
  "extname p =
     (let s = ext_loop p (length p)
                \<lparr>startDot = -1, startPart = 0, endIdx = -1, matchedSlash = True, preDotState = 0\<rparr>
      in if startDot s = -1 \<or> endIdx s = -1 \<or> preDotState s = 0
            \<or> (preDotState s = 1 \<and> startDot s = endIdx s - 1 \<and> startDot s = startPart s + 1)
         then []
         else take (nat (endIdx s - startDot s)) (drop (nat (startDot s)) p))"

section \<open>utils/helpers\<close>

text \<open>\<open>formatDate\<close> is \<open>date.toISOString().split('T')[0]\<close> and \<open>formatTime\<close> is
  \<open>date.toTimeString().split(' ')[0].replace(/:/g, '-')\<close>: the first piece of a split is
  the text before the first separator.\<close>

definition formatDate :: "platform \<Rightarrow> int \<Rightarrow> jsstring" where
  "formatDate P d = takeWhile (\<lambda>c. c \<noteq> 0x54) (toISOString P d)"

definition formatTime :: "platform \<Rightarrow> int \<Rightarrow> jsstring" where
  "formatTime P d =
     map (\<lambda>c. if c = 0x3A then 0x2D else c) (takeWhile (\<lambda>c. c \<noteq> 0x20) (toTimeString P d))"

subsection \<open>\<open>sanitizeFileName\<close>\<close>

text \<open>The character class \<open>[<>:"/\\|?*\x00-\x1f]\<close> of the first replacement.\<close>

definition isIllegal :: "jschar \<Rightarrow> bool" where
  "isIllegal c \<longleftrightarrow>
     c = 0x3C \<or> c = 0x3E \<or> c = 0x3A \<or> c = 0x22 \<or> c = 0x2F \<or> c = 0x5C \<or> c = 0x7C
     \<or> c = 0x3F \<or> c = 0x2A \<or> c \<le> 0x1F"

text \<open>The class \<open>\s\<close> of ECMAScript: white space and line terminators.\<close>

definition isSpace :: "jschar \<Rightarrow> bool" where
  "isSpace c \<longleftrightarrow>
     c = 0x09 \<or> c = 0x0A \<or> c = 0x0B \<or> c = 0x0C \<or> c = 0x0D \<or> c = 0x20 \<or> c = 0xA0
     \<or> c = 0x1680 \<or> (0x2000 \<le> c \<and> c \<le> 0x200A) \<or> c = 0x2028 \<or> c = 0x2029
     \<or> c = 0x202F \<or> c = 0x205F \<or> c = 0x3000 \<or> c = 0xFEFF"

text \<open>\<open>.replace(/X+/g, '_')\<close>: every maximal run of code units of the class \<open>X\<close>
  becomes one underscore.\<close>

function collapseRuns :: "(jschar \<Rightarrow> bool) \<Rightarrow> jsstring \<Rightarrow> jsstring" where
  "collapseRuns p [] = []"
| "collapseRuns p (c # cs) =
     (if p c then us # collapseRuns p (dropWhile p cs) else c # collapseRuns p cs)"
  by pat_completeness auto
termination
  by (relation "measure (\<lambda>(p, s). length s)") (auto simp: length_dropWhile_le less_Suc_eq_le)

text \<open>\<open>.replace(/^_|_$/g, '')\<close>: the global search finds an underscore at index 0, and
  then an underscore at the last index if that one was not consumed by the first match.\<close>

definition trimEdges :: "jsstring \<Rightarrow> jsstring" where
  "trimEdges s =
     (let s1 = (case s of [] \<Rightarrow> [] | c # cs \<Rightarrow> if c = us then cs else s)
      in if s1 \<noteq> [] \<and> last s1 = us then butlast s1 else s1)"

definition sanitizeFileName :: "jsstring \<Rightarrow> jsstring" where
  "sanitizeFileName name =
     take 200
       (trimEdges
         (collapseRuns (\<lambda>c. c = us)
           (collapseRuns isSpace
             (map (\<lambda>c. if isIllegal c then us else c) name))))"

subsection \<open>\<open>generateFileName\<close>\<close>

text \<open>
  \<open>result.replace(/\{id\}/g, value)\<close> replaces every occurrence of a literal text, from left
  to right and without overlap. The replacement is a string, so JavaScript expands in it the
  patterns \<open>$$\<close>, \<open>$&\<close> (the matched text), \<open>$`\<close> (the text before the match) and
  \<open>$'\<close> (the text after the match); the regular expressions of the source have no groups, so
  \<open>$1\<close> and \<open>$<name>\<close> stay as they are.
\<close>

fun expand :: "jsstring \<Rightarrow> jsstring \<Rightarrow> jsstring \<Rightarrow> jsstring \<Rightarrow> jsstring" where
  "expand [] m before after = []"
| "expand [c] m before after = [c]"
| "expand (c # d # r) m before after =
     (if c = dollar \<and> d = dollar then dollar # expand r m before after
      else if c = dollar \<and> d = 0x26 then m @ expand r m before after
      else if c = dollar \<and> d = 0x60 then before @ expand r m before after
      else if c = dollar \<and> d = 0x27 then after @ expand r m before after
      else c # expand (d # r) m before after)"

text \<open>\<open>replaceAll_from pat repl before s\<close>: the search has reached the suffix \<open>s\<close> of the
  subject, \<open>before\<close> is the part of the subject already passed.\<close>

function replaceAll_from :: "jsstring \<Rightarrow> jsstring \<Rightarrow> jsstring \<Rightarrow> jsstring \<Rightarrow> jsstring" where
  "replaceAll_from pat repl before s =
     (if pat = [] \<or> s = [] then s
      else if take (length pat) s = pat then
        expand repl pat before (drop (length pat) s)
          @ replaceAll_from pat repl (before @ pat) (drop (length pat) s)
      else hd s # replaceAll_from pat repl (before @ [hd s]) (tl s))"
  by pat_completeness auto
termination
  by (relation "measure (\<lambda>(pat, repl, before, s). length s)") auto

declare replaceAll_from.simps [simp del]

definition replaceAll :: "jsstring \<Rightarrow> jsstring \<Rightarrow> jsstring \<Rightarrow> jsstring" where
  "replaceAll pat repl s = replaceAll_from pat repl [] s"

definition generateFileName :: "jsstring \<Rightarrow> FileNameVariables \<Rightarrow> jsstring" where
  "generateFileName template vars =
     (let result = template;
          result = replaceAll (js ''{id}'') (v_id vars) result;
          result = replaceAll (js ''{chatTitle}'') (sanitizeFileName (v_chatTitle vars)) result;
          result = replaceAll (js ''{chatId}'') (v_chatId vars) result;
          result = replaceAll (js ''{date}'') (v_date vars) result;
          result = replaceAll (js ''{time}'') (v_time vars) result;
          result = replaceAll (js ''{type}'') (v_type vars) result;
          result = replaceAll (js ''{originalName}'') (sanitizeFileName (v_originalName vars)) result;
          result = replaceAll (js ''{extension}'') (v_extension vars) result;
          result = replaceAll (js ''{caption}'') (sanitizeFileName (take 30 (v_caption vars))) result;
          result = replaceAll (js ''{messageId}'') (v_messageId vars) result
      in sanitizeFileName result)"

subsection \<open>\<open>getExtension\<close> and \<open>getMediaTypeFolder\<close>\<close>

definition mimeToExt :: "(jsstring \<times> jsstring) list" where
  "mimeToExt =
     [(js ''image/jpeg'', js ''.jpg''),
      (js ''image/png'', js ''.png''),
      (js ''image/gif'', js ''.gif''),
      (js ''image/webp'', js ''.webp''),
      (js ''video/mp4'', js ''.mp4''),
      (js ''video/quicktime'', js ''.mov''),
      (js ''video/x-matroska'', js ''.mkv''),
      (js ''video/webm'', js ''.webm''),
      (js ''audio/mpeg'', js ''.mp3''),
      (js ''audio/ogg'', js ''.ogg''),
      (js ''audio/wav'', js ''.wav''),
      (js ''audio/flac'', js ''.flac''),
      (js ''application/pdf'', js ''.pdf''),
      (js ''application/zip'', js ''.zip''),
      (js ''application/x-rar-compressed'', js ''.rar''),
      (js ''application/x-7z-compressed'', js ''.7z''),
      (js ''text/plain'', js ''.txt'')]"

text \<open>The table is read at its own keys; what a JavaScript object inherits (a MIME type
  spelled \<open>constructor\<close>) is left out.\<close>

definition getExtension :: "platform \<Rightarrow> jsstring \<Rightarrow> jsstring option \<Rightarrow> jsstring" where
  "getExtension P name mime =
     (let extFromName = toLowerCase P (extname name)
      in if extFromName \<noteq> [] then extFromName
         else (case mime of
                 None \<Rightarrow> []
               | Some m \<Rightarrow> (case map_of mimeToExt m of Some e \<Rightarrow> e | None \<Rightarrow> [])))"

fun getMediaTypeFolder :: "MediaType \<Rightarrow> jsstring" where
  "getMediaTypeFolder PHOTO = js ''photos''"
| "getMediaTypeFolder VIDEO = js ''videos''"
| "getMediaTypeFolder DOCUMENT = js ''documents''"
| "getMediaTypeFolder AUDIO = js ''audio''"
| "getMediaTypeFolder VOICE = js ''voice''"
| "getMediaTypeFolder VIDEO_NOTE = js ''video_notes''"
| "getMediaTypeFolder ANIMATION = js ''animations''"
| "getMediaTypeFolder STICKER = js ''stickers''"
| "getMediaTypeFolder UNKNOWN = js ''other''"

section \<open>core/aggregator: the classifier\<close>

text \<open>The records of the Telegram library as far as \<open>extractMediaInfo\<close> inspects them. Each
  \<open>instanceof\<close> test of the source is a constructor here; the last constructor of each type
  stands for every other class.\<close>

datatype photo_size = PhotoSize int int int | OtherPhotoSize

datatype photo = Photo "photo_size list" | OtherPhoto

datatype doc_attribute =
    DocumentAttributeFilename jsstring
  | DocumentAttributeVideo bool int int int
  | DocumentAttributeAudio bool int
  | DocumentAttributeAnimated
  | DocumentAttributeSticker
  | OtherAttribute

datatype document = Document int jsstring "doc_attribute list" | OtherDocument

datatype message_media =
    MessageMediaPhoto photo
  | MessageMediaDocument document
  | OtherMedia

record api_message =
  msg_id :: int
  msg_media :: "message_media option"
  msg_date :: int
  msg_message :: jsstring

definition MAX_FILE_SIZE :: int where
  "MAX_FILE_SIZE = 2 * 1024 * 1024 * 1024"

text \<open>The local variables of \<open>extractMediaInfo\<close> that the two branches assign.\<close>

record extracted =
  x_type :: MediaType
  x_mimeType :: "jsstring option"
  x_fileName :: "jsstring option"
  x_fileSize :: int
  x_duration :: "int option"
  x_width :: "int option"
  x_height :: "int option"

text \<open>The body of the loop over \<open>doc.attributes\<close>.\<close>

fun applyAttribute :: "extracted \<Rightarrow> doc_attribute \<Rightarrow> extracted" where
  "applyAttribute x (DocumentAttributeFilename n) = x\<lparr>x_fileName := Some n\<rparr>"
| "applyAttribute x (DocumentAttributeVideo roundMessage d w h) =
     x\<lparr>x_type := (if roundMessage then VIDEO_NOTE else VIDEO),
       x_duration := Some d, x_width := Some w, x_height := Some h\<rparr>"
| "applyAttribute x (DocumentAttributeAudio voice d) =
     x\<lparr>x_type := (if voice then VOICE else AUDIO), x_duration := Some d\<rparr>"
| "applyAttribute x DocumentAttributeAnimated = x\<lparr>x_type := ANIMATION\<rparr>"
| "applyAttribute x DocumentAttributeSticker = x\<lparr>x_type := STICKER\<rparr>"
| "applyAttribute x OtherAttribute = x"

definition extractPhoto :: "platform \<Rightarrow> int \<Rightarrow> photo \<Rightarrow> extracted \<Rightarrow> extracted" where
  "extractPhoto P mid ph x =
     (let x1 = x\<lparr>x_type := PHOTO\<rparr>;
          x2 = (case ph of
                  Photo sizes \<Rightarrow>
                    (if sizes = [] then x1
                     else (case last sizes of
                             PhotoSize sz w h \<Rightarrow>
                               x1\<lparr>x_fileSize := sz, x_width := Some w, x_height := Some h\<rparr>
                           | OtherPhotoSize \<Rightarrow> x1))
                | OtherPhoto \<Rightarrow> x1)
      in x2\<lparr>x_mimeType := Some (js ''image/jpeg''),
            x_fileName := Some (js ''photo_'' @ numberToString P mid @ js ''.jpg'')\<rparr>)"

definition extractDocument :: "platform \<Rightarrow> int \<Rightarrow> document \<Rightarrow> extracted \<Rightarrow> extracted" where
  "extractDocument P mid d x =
     (case d of
        OtherDocument \<Rightarrow> x
      | Document sz mime attrs \<Rightarrow>
          (let x1 = x\<lparr>x_fileSize := sz, x_mimeType := Some mime\<rparr>;
               x2 = foldl applyAttribute x1 attrs;
               x3 = (if x_type x2 = UNKNOWN then x2\<lparr>x_type := DOCUMENT\<rparr> else x2)
           in if orElse (x_fileName x3) [] = []
              then x3\<lparr>x_fileName :=
                        Some (js ''file_'' @ numberToString P mid @ getExtension P [] (Some mime))\<rparr>
              else x3))"

text \<open>The text of \<open>downloadableReason\<close> for a file over the ceiling, around the formatted
  size.\<close>

definition tooLargePrefix :: jsstring where
  "tooLargePrefix =
     [0x6587, 0x4EF6, 0x5927, 0x5C0F, 0x8D85, 0x8FC7, 0x32, 0x47, 0x42, 0x9650, 0x5236, 0x20, 0x28]"

text \<open>\<open>extractMediaInfo\<close>; \<open>None\<close> is the source's \<open>null\<close>. The identifier drawn by
  \<open>generateId\<close> (clock and random numbers) is the parameter \<open>newId\<close>.\<close>

definition extractMediaInfo ::
  "platform \<Rightarrow> jsstring \<Rightarrow> api_message \<Rightarrow> jsstring \<Rightarrow> jsstring \<Rightarrow> MediaInfo option" where
  "extractMediaInfo P newId message cid ctitle =
     (case msg_media message of
        None \<Rightarrow> None
      | Some media \<Rightarrow>
          (let x0 = \<lparr>x_type = UNKNOWN, x_mimeType = None, x_fileName = None, x_fileSize = 0,
                     x_duration = None, x_width = None, x_height = None\<rparr>;
               found = (case media of
                          MessageMediaPhoto ph \<Rightarrow> Some (extractPhoto P (msg_id message) ph x0)
                        | MessageMediaDocument d \<Rightarrow> Some (extractDocument P (msg_id message) d x0)
                        | OtherMedia \<Rightarrow> None)
           in (case found of
                 None \<Rightarrow> None
               | Some x \<Rightarrow>
                   (let tooLarge = (x_fileSize x > MAX_FILE_SIZE);
                        verdict = (if tooLarge then TOO_LARGE else DOWNLOADABLE);
                        reason = (if tooLarge
                                  then Some (tooLargePrefix @ formatFileSize P (x_fileSize x) @ js '')'')
                                  else None)
                    in Some \<lparr>mi_id = newId, messageId = msg_id message, chatId = cid,
                             chatTitle = ctitle, mi_type = x_type x, mimeType = x_mimeType x,
                             fileName = x_fileName x, fileSize = x_fileSize x,
                             fileSizeFormatted = formatFileSize P (x_fileSize x),
                             downloadable = verdict, downloadableReason = reason,
                             mi_date = msg_date message * 1000,
                             caption = (if msg_message message = [] then None
                                        else Some (msg_message message)),
                             duration = x_duration x, width = x_width x,
                             height = x_height x\<rparr>))))"

section \<open>utils/config: the configuration store\<close>

record TelegramConfig =
  apiId :: int
  apiHash :: jsstring

text \<open>\<open>AppConfig\<close> as parsed from the configuration file: a file written by hand may lack
  the \<open>download\<close> part, which \<open>getDownloadConfig\<close> allows for.\<close>

record AppConfig =
  telegram :: TelegramConfig
  download :: "DownloadConfig option"

text \<open>\<open>Partial<DownloadConfig>\<close>: every key may be absent.\<close>

record PartialDownloadConfig =
  p_outputDir :: "jsstring option"
  p_concurrentDownloads :: "int option"
  p_chunkSize :: "int option"
  p_maxRetries :: "nat option"
  p_retryDelay :: "int option"
  p_resumeEnabled :: "bool option"
  p_speedLimit :: "int option option"
  p_fileNameTemplate :: "jsstring option"
  p_createSubfolders :: "bool option"
  p_skipExisting :: "bool option"

definition noUpdates :: PartialDownloadConfig where
  "noUpdates =
     \<lparr>p_outputDir = None, p_concurrentDownloads = None, p_chunkSize = None, p_maxRetries = None,
      p_retryDelay = None, p_resumeEnabled = None, p_speedLimit = None,
      p_fileNameTemplate = None, p_createSubfolders = None, p_skipExisting = None\<rparr>"

definition DEFAULT_DOWNLOAD_CONFIG :: "platform \<Rightarrow> DownloadConfig" where
  "DEFAULT_DOWNLOAD_CONFIG P =
     \<lparr>outputDir = path_join P (homedir P) (js ''TG-Downloads''),
      concurrentDownloads = 3,
      chunkSize = 512 * 1024,
      maxRetries = 3,
      retryDelay = 2000,
      resumeEnabled = True,
      speedLimit = None,
      fileNameTemplate = js ''{chatTitle}_{date}_{id}.{extension}'',
      createSubfolders = True,
      skipExisting = True\<rparr>"

text \<open>The object spread \<open>{ ...current, ...updates }\<close>.\<close>

definition spread :: "DownloadConfig \<Rightarrow> PartialDownloadConfig \<Rightarrow> DownloadConfig" where
  "spread current updates =
     \<lparr>outputDir = (case p_outputDir updates of Some v \<Rightarrow> v | None \<Rightarrow> outputDir current),
      concurrentDownloads =
        (case p_concurrentDownloads updates of Some v \<Rightarrow> v | None \<Rightarrow> concurrentDownloads current),
      chunkSize = (case p_chunkSize updates of Some v \<Rightarrow> v | None \<Rightarrow> chunkSize current),
      maxRetries = (case p_maxRetries updates of Some v \<Rightarrow> v | None \<Rightarrow> maxRetries current),
      retryDelay = (case p_retryDelay updates of Some v \<Rightarrow> v | None \<Rightarrow> retryDelay current),
      resumeEnabled =
        (case p_resumeEnabled updates of Some v \<Rightarrow> v | None \<Rightarrow> resumeEnabled current),
      speedLimit = (case p_speedLimit updates of Some v \<Rightarrow> v | None \<Rightarrow> speedLimit current),
      fileNameTemplate =
        (case p_fileNameTemplate updates of Some v \<Rightarrow> v | None \<Rightarrow> fileNameTemplate current),
      createSubfolders =
        (case p_createSubfolders updates of Some v \<Rightarrow> v | None \<Rightarrow> createSubfolders current),
      skipExisting =
        (case p_skipExisting updates of Some v \<Rightarrow> v | None \<Rightarrow> skipExisting current)\<rparr>"

text \<open>The store is what \<open>loadConfig\<close> returns: the parsed file, or \<open>None\<close> when there is
  no file or it does not parse. \<open>saveConfig\<close> replaces it.\<close>

definition getDownloadConfig :: "platform \<Rightarrow> AppConfig option \<Rightarrow> DownloadConfig" where
  "getDownloadConfig P store =
     (case store of
        None \<Rightarrow> DEFAULT_DOWNLOAD_CONFIG P
      | Some config \<Rightarrow>
          (case download config of None \<Rightarrow> DEFAULT_DOWNLOAD_CONFIG P | Some d \<Rightarrow> d))"

definition saveDownloadConfig :: "DownloadConfig \<Rightarrow> AppConfig option \<Rightarrow> AppConfig option" where
  "saveDownloadConfig downloadConfig store =
     (let config = (case store of
                      None \<Rightarrow> \<lparr>telegram = \<lparr>apiId = 0, apiHash = []\<rparr>,
                                download = Some downloadConfig\<rparr>
                    | Some c \<Rightarrow> c)
      in Some (config\<lparr>download := Some downloadConfig\<rparr>))"

definition updateDownloadConfig ::
  "platform \<Rightarrow> PartialDownloadConfig \<Rightarrow> AppConfig option \<Rightarrow> AppConfig option" where
  "updateDownloadConfig P updates store =
     saveDownloadConfig (spread (getDownloadConfig P store) updates) store"

section \<open>core/downloader\<close>

subsection \<open>Tasks, the file system and the observable trace\<close>

text \<open>\<open>DownloadTask\<close>. The fields \<open>speed\<close>, \<open>speedFormatted\<close>, \<open>eta\<close>,
  \<open>startTime\<close> and \<open>endTime\<close> hold wall-clock readings and floating-point quotients that
  no branch of the module reads back; they are left out.\<close>

record DownloadTask =
  t_id :: jsstring
  media :: MediaInfo
  status :: DownloadStatus
  progress :: int
  downloadedBytes :: int
  outputPath :: jsstring
  customFileName :: "jsstring option"
  error :: "jsstring option"
  retryCount :: nat

record DownloadState =
  ds_mediaId :: jsstring
  ds_messageId :: int
  ds_chatId :: jsstring
  ds_outputPath :: jsstring
  ds_totalSize :: int
  ds_downloadedBytes :: int

text \<open>The file system is a map from path texts to what is stored there, together with the set
  of paths whose entry the operating system refuses to remove (\<open>undeletable\<close>: the
  permissions of the process do not allow it). Writing a file and creating a directory succeed;
  unlinking can fail. A resume marker is stored as the state object whose JSON text the source
  writes (its \<open>chunks\<close> array is always empty).\<close>

datatype content = Directory | Bytes "8 word list" | StateJson DownloadState

text \<open>What an observer of one execution sees: the lifecycle callbacks that were invoked, the
  calls made to the Telegram client, and the waits.\<close>

datatype event =
    OnStart jsstring
  | OnProgress jsstring int
  | OnComplete jsstring
  | OnError jsstring jsstring
  | OnPause jsstring
  | GetEntity jsstring
  | GetMessages int
  | DownloadMedia jsstring
  | Delay int

record world =
  files :: "jsstring \<rightharpoonup> content"
  undeletable :: "jsstring set"
  pausedTasks :: "jsstring set"
  cancelledTasks :: "jsstring set"
  trace :: "event list"

text \<open>\<open>Partial<DownloadEvents>\<close>: which callbacks the caller supplied. A callback is taken to
  do nothing but be observed.\<close>

record DownloadEvents =
  onStart :: bool
  onProgress :: bool
  onComplete :: bool
  onError :: bool
  onPause :: bool
  onResume :: bool

definition emit :: "bool \<Rightarrow> event \<Rightarrow> world \<Rightarrow> world" where
  "emit supplied e w = (if supplied then w\<lparr>trace := trace w @ [e]\<rparr> else w)"

definition DOWNLOAD_STATE_SUFFIX :: jsstring where
  "DOWNLOAD_STATE_SUFFIX = js ''.dlstate''"

definition fileExists :: "jsstring \<Rightarrow> world \<Rightarrow> bool" where
  "fileExists filePath w \<longleftrightarrow> files w filePath \<noteq> None"

definition ensureDir :: "jsstring \<Rightarrow> world \<Rightarrow> world" where
  "ensureDir dirPath w =
     (if \<not> fileExists dirPath w then w\<lparr>files := (files w)(dirPath \<mapsto> Directory)\<rparr> else w)"

text \<open>\<open>fs.unlinkSync\<close> throws when there is nothing at the path, when the entry is a
  directory, and when the system refuses the removal; otherwise the entry is gone. Each caller
  in the module swallows the error, so one error value stands for all three.\<close>

datatype fs_error = UnlinkRefused

definition unlink :: "jsstring \<Rightarrow> world \<Rightarrow> fs_error + world" where
  "unlink filePath w =
     (if files w filePath = None \<or> files w filePath = Some Directory \<or> filePath \<in> undeletable w
      then Inl UnlinkRefused
      else Inr (w\<lparr>files := (files w)(filePath := None)\<rparr>))"

definition saveDownloadState :: "DownloadState \<Rightarrow> world \<Rightarrow> world" where
  "saveDownloadState state w =
     w\<lparr>files := (files w)(ds_outputPath state @ DOWNLOAD_STATE_SUFFIX \<mapsto> StateJson state)\<rparr>"

definition loadDownloadState :: "jsstring \<Rightarrow> world \<Rightarrow> DownloadState option" where
  "loadDownloadState path w =
     (case files w (path @ DOWNLOAD_STATE_SUFFIX) of
        Some (StateJson state) \<Rightarrow> Some state
      | _ \<Rightarrow> None)"

text \<open>\<open>removeDownloadState\<close> unlinks the marker inside a \<open>try\<close> whose \<open>catch\<close> is
  empty: a failed unlink leaves the state as it is.\<close>

definition removeDownloadState :: "jsstring \<Rightarrow> world \<Rightarrow> world" where
  "removeDownloadState path w =
     (let statePath = path @ DOWNLOAD_STATE_SUFFIX
      in if fileExists statePath w
         then (case unlink statePath w of Inl e \<Rightarrow> w | Inr w' \<Rightarrow> w')
         else w)"

definition pauseDownload :: "jsstring \<Rightarrow> world \<Rightarrow> world" where
  "pauseDownload taskId w = w\<lparr>pausedTasks := insert taskId (pausedTasks w)\<rparr>"

definition cancelDownload :: "jsstring \<Rightarrow> world \<Rightarrow> world" where
  "cancelDownload taskId w = w\<lparr>cancelledTasks := insert taskId (cancelledTasks w)\<rparr>"

subsection \<open>The task factory\<close>

text \<open>The first half of \<open>generateOutputPath\<close>: the value of its variable \<open>fileName\<close>.
  An absent and an empty \<open>customFileName\<close> both take the template branch.\<close>

definition outputFileName ::
  "platform \<Rightarrow> MediaInfo \<Rightarrow> DownloadConfig \<Rightarrow> jsstring option \<Rightarrow> jsstring" where
  "outputFileName P m config custom =
     (if orElse custom [] \<noteq> [] then
        (let c = orElse custom [];
             ext = getExtension P (orElse (fileName m) []) (mimeType m)
         in if dot \<in> set c then c else c @ ext)
      else
        (let vars = \<lparr>v_id = mi_id m,
                      v_chatTitle = chatTitle m,
                      v_chatId = chatId m,
                      v_date = formatDate P (mi_date m),
                      v_time = formatTime P (mi_date m),
                      v_type = mediaTypeValue (mi_type m),
                      v_originalName =
                        orElse (fileName m) (js ''file_'' @ numberToString P (messageId m)),
                      v_extension =
                        remove1 dot (getExtension P (orElse (fileName m) []) (mimeType m)),
                      v_caption = orElse (caption m) [],
                      v_messageId = numberToString P (messageId m)\<rparr>;
             name = generateFileName (fileNameTemplate config) vars
         in if extname name = []
            then name @ getExtension P (orElse (fileName m) []) (mimeType m)
            else name))"

text \<open>\<open>generateOutputPath\<close> returns the path and leaves the output directory created.\<close>

definition generateOutputPath ::
  "platform \<Rightarrow> MediaInfo \<Rightarrow> DownloadConfig \<Rightarrow> jsstring option \<Rightarrow> world \<Rightarrow> jsstring \<times> world" where
  "generateOutputPath P m config custom w =
     (let name = outputFileName P m config custom;
          dir = (if createSubfolders config
                 then path_join P (outputDir config) (getMediaTypeFolder (mi_type m))
                 else outputDir config)
      in (path_join P dir name, ensureDir dir w))"

text \<open>The registry \<open>downloadTasks\<close> is a JavaScript \<open>Map\<close>: its entries in insertion order,
  one per key. \<open>set\<close> replaces the value of a key in place or appends a new entry;
  \<open>delete\<close> drops the entry of a key. A task is a value: the registry holds the task as it
  was registered, and an execution takes a task and returns it as changed.\<close>

type_synonym registry = "(jsstring \<times> DownloadTask) list"

fun map_set :: "jsstring \<Rightarrow> DownloadTask \<Rightarrow> registry \<Rightarrow> registry" where
  "map_set k v [] = [(k, v)]"
| "map_set k v (e # es) = (if fst e = k then (k, v) # es else e # map_set k v es)"

definition map_delete :: "jsstring \<Rightarrow> registry \<Rightarrow> registry" where
  "map_delete k r = filter (\<lambda>e. fst e \<noteq> k) r"

text \<open>\<open>createDownloadTask\<close>; \<open>newId\<close> is the identifier drawn by \<open>generateId\<close>.\<close>

definition createDownloadTask ::
  "platform \<Rightarrow> jsstring \<Rightarrow> AppConfig option \<Rightarrow> MediaInfo \<Rightarrow> PartialDownloadConfig
     \<Rightarrow> jsstring option \<Rightarrow> registry \<times> world \<Rightarrow> DownloadTask \<times> registry \<times> world" where
  "createDownloadTask P newId store m config custom rw =
     (let downloadConfig = spread (getDownloadConfig P store) config;
          (path, w') = generateOutputPath P m downloadConfig custom (snd rw);
          task = \<lparr>t_id = newId, media = m, status = PENDING, progress = 0, downloadedBytes = 0,
                  outputPath = path, customFileName = custom, error = None, retryCount = 0\<rparr>
      in (task, map_set newId task (fst rw), w'))"

text \<open>\<open>clearCompletedTasks\<close>: the loop over the entries of the registry, deleting as it
  goes.\<close>

definition clearCompletedTasks :: "registry \<Rightarrow> registry" where
  "clearCompletedTasks r =
     foldl (\<lambda>acc e. if status (snd e) = COMPLETED \<or> status (snd e) = CANCELLED
                     then map_delete (fst e) acc else acc) r r"

subsection \<open>The environment of one execution\<close>

text \<open>
  What the Telegram client does is not decided by the module, so it is an input: one
  \<open>attempt\<close> for every entry into \<open>executeDownload\<close> (the first and each retry). It says
  whether \<open>getClient()\<close> returns a client, what \<open>getEntity\<close> and \<open>getMessages\<close> do,
  what happens while \<open>downloadMedia\<close> runs, and how \<open>downloadMedia\<close> ends when the progress
  callback has not aborted it. While the transfer runs, the client invokes the progress callback
  (\<open>Progress downloaded total\<close>), and other code of the process may call \<open>pauseDownload\<close>
  or \<open>cancelDownload\<close> for any task.
\<close>

datatype 'a outcome = Throws jsstring | Returns 'a

datatype message = NoMessage | ForeignMessage | Message bool

datatype step = Progress int int | PauseCall jsstring | CancelCall jsstring

record attempt =
  a_client :: bool
  a_getEntity :: "unit outcome"
  a_getMessages :: "message list option outcome"
  a_steps :: "step list"
  a_downloadMedia :: "8 word list option outcome"

datatype exec_error = ClientNotConnected

definition NOT_DOWNLOADABLE :: jsstring where
  "NOT_DOWNLOADABLE = [0x6587, 0x4EF6, 0x4E0D, 0x53EF, 0x4E0B, 0x8F7D]"

definition MESSAGE_MISSING :: jsstring where
  "MESSAGE_MISSING =
     [0x6D88, 0x606F, 0x4E0D, 0x5B58, 0x5728, 0x6216, 0x5DF2, 0x88AB, 0x5220, 0x9664]"

definition MESSAGE_WITHOUT_MEDIA :: jsstring where
  "MESSAGE_WITHOUT_MEDIA =
     [0x6D88, 0x606F, 0x4E0D, 0x5305, 0x542B, 0x5A92, 0x4F53, 0x5185, 0x5BB9]"

definition EMPTY_DOWNLOAD :: jsstring where
  "EMPTY_DOWNLOAD = [0x4E0B, 0x8F7D, 0x8FD4, 0x56DE, 0x7A7A, 0x6570, 0x636E]"

subsection \<open>\<open>executeDownload\<close>\<close>

text \<open>The transfer: the steps of the environment in order. At a \<open>Progress\<close> step the
  progress callback of the source runs; it returns the message of the error it throws, if it
  throws, and the transfer ends there.\<close>

fun runTransfer ::
  "platform \<Rightarrow> DownloadEvents \<Rightarrow> world \<Rightarrow> DownloadTask \<Rightarrow> step list
     \<Rightarrow> (world \<times> DownloadTask) \<times> jsstring option" where
  "runTransfer P events w task [] = ((w, task), None)"
| "runTransfer P events w task (PauseCall i # ss) =
     runTransfer P events (pauseDownload i w) task ss"
| "runTransfer P events w task (CancelCall i # ss) =
     runTransfer P events (cancelDownload i w) task ss"
| "runTransfer P events w task (Progress downloaded tot # ss) =
     (if t_id task \<in> pausedTasks w then
        ((emit (onPause events) (OnPause (t_id task)) w, task\<lparr>status := PAUSED\<rparr>),
         Some (js ''PAUSED''))
      else if t_id task \<in> cancelledTasks w then
        ((w, task\<lparr>status := CANCELLED\<rparr>), Some (js ''CANCELLED''))
      else
        (let task' = task\<lparr>downloadedBytes := downloaded,
                           progress := percentage P downloaded tot\<rparr>
         in runTransfer P events
              (emit (onProgress events) (OnProgress (t_id task) (progress task')) w) task' ss))"

text \<open>The \<open>try\<close> block. The second component is \<open>None\<close> when the block ends normally and
  the message of the error otherwise.\<close>

definition tryBlock ::
  "platform \<Rightarrow> DownloadEvents \<Rightarrow> attempt \<Rightarrow> world \<Rightarrow> DownloadTask
     \<Rightarrow> (world \<times> DownloadTask) \<times> jsstring option" where
  "tryBlock P events a w task =
     (let w1 = w\<lparr>trace := trace w @ [GetEntity (chatId (media task))]\<rparr>
      in case a_getEntity a of
           Throws msg \<Rightarrow> ((w1, task), Some msg)
         | Returns entity \<Rightarrow>
            (let w2 = w1\<lparr>trace := trace w1 @ [GetMessages (messageId (media task))]\<rparr>
             in case a_getMessages a of
                  Throws msg \<Rightarrow> ((w2, task), Some msg)
                | Returns None \<Rightarrow> ((w2, task), Some MESSAGE_MISSING)
                | Returns (Some []) \<Rightarrow> ((w2, task), Some MESSAGE_MISSING)
                | Returns (Some (m # ms)) \<Rightarrow>
                   (if m \<noteq> Message True then ((w2, task), Some MESSAGE_WITHOUT_MEDIA)
                    else
                      (let w3 = ensureDir (path_dirname P (outputPath task)) w2;
                           w4 = w3\<lparr>trace := trace w3 @ [DownloadMedia (t_id task)]\<rparr>
                       in case runTransfer P events w4 task (a_steps a) of
                            ((w5, task5), Some msg) \<Rightarrow> ((w5, task5), Some msg)
                          | ((w5, task5), None) \<Rightarrow>
                             (case a_downloadMedia a of
                                Throws msg \<Rightarrow> ((w5, task5), Some msg)
                              | Returns None \<Rightarrow> ((w5, task5), Some EMPTY_DOWNLOAD)
                              | Returns (Some buffer) \<Rightarrow>
                                 (let w6 = w5\<lparr>files := (files w5)(outputPath task5 \<mapsto> Bytes buffer)\<rparr>;
                                      w7 = removeDownloadState (outputPath task5) w6;
                                      task7 = task5\<lparr>status := COMPLETED, progress := 100,
                                                    downloadedBytes := fileSize (media task5)\<rparr>
                                  in ((emit (onComplete events) (OnComplete (t_id task7)) w7, task7),
                                      None)))))))"

text \<open>The handlers of the \<open>catch\<close> block for the two control signals.\<close>

definition caughtPaused :: "world \<Rightarrow> DownloadTask \<Rightarrow> world" where
  "caughtPaused w task =
     saveDownloadState
       \<lparr>ds_mediaId = mi_id (media task), ds_messageId = messageId (media task),
        ds_chatId = chatId (media task), ds_outputPath = outputPath task,
        ds_totalSize = fileSize (media task), ds_downloadedBytes = downloadedBytes task\<rparr> w"

text \<open>On \<open>CANCELLED\<close> the unlink of the output path and the call of
  \<open>removeDownloadState\<close> stand in one \<open>try\<close> whose \<open>catch\<close> is empty: when the unlink
  throws, \<open>removeDownloadState\<close> is not called.\<close>

definition caughtCancelled :: "world \<Rightarrow> DownloadTask \<Rightarrow> world" where
  "caughtCancelled w task =
     (if fileExists (outputPath task) w
      then (case unlink (outputPath task) w of
              Inl e \<Rightarrow> w
            | Inr w1 \<Rightarrow> removeDownloadState (outputPath task) w1)
      else removeDownloadState (outputPath task) w)"

lemma runTransfer_retryCount:
  "runTransfer P events w task ss = ((w', task'), r) \<Longrightarrow> retryCount task' = retryCount task"
  by (induction P events w task ss arbitrary: w' task' r rule: runTransfer.induct)
     (auto split: if_splits simp: Let_def)

lemma tryBlock_retryCount:
  "tryBlock P events a w task = ((w', task'), r) \<Longrightarrow> retryCount task' = retryCount task"
  by (auto simp: tryBlock_def Let_def split: outcome.splits option.splits list.splits if_splits
        prod.splits dest: runTransfer_retryCount)

text \<open>\<open>executeDownload\<close>. The environment \<open>env\<close> gives the attempt for each entry, \<open>n\<close>
  counts the entries. The result is \<open>Inl\<close> when the promise is rejected (no client), and
  otherwise the world and the task as the execution leaves them. A retry is the recursive call
  of the source. The marker that the source loads before the transfer (\<open>existingState\<close>, when
  \<open>resumeEnabled\<close> is set) enters the speed computation only, which has no counterpart
  here.\<close>

function executeDownload ::
  "platform \<Rightarrow> DownloadConfig \<Rightarrow> DownloadEvents \<Rightarrow> (nat \<Rightarrow> attempt) \<Rightarrow> nat \<Rightarrow> world
     \<Rightarrow> DownloadTask \<Rightarrow> exec_error + world \<times> DownloadTask" where
  "executeDownload P config events env n w task =
     (if \<not> a_client (env n) then Inl ClientNotConnected
      else if downloadable (media task) \<noteq> DOWNLOADABLE then
        (let task1 = task\<lparr>status := FAILED,
                          error := Some (orElse (downloadableReason (media task)) NOT_DOWNLOADABLE)\<rparr>
         in Inr (emit (onError events) (OnError (t_id task1) (the (error task1))) w, task1))
      else if skipExisting config \<and> fileExists (outputPath task) w then
        (let task1 = task\<lparr>status := COMPLETED, progress := 100,
                          downloadedBytes := fileSize (media task)\<rparr>
         in Inr (emit (onComplete events) (OnComplete (t_id task1)) w, task1))
      else
        (let task1 = task\<lparr>status := DOWNLOADING\<rparr>;
             w1 = emit (onStart events) (OnStart (t_id task1)) w
         in case tryBlock P events (env n) w1 task1 of
              ((w2, task2), None) \<Rightarrow> Inr (w2, task2)
            | ((w2, task2), Some msg) \<Rightarrow>
               (if msg = js ''PAUSED'' then Inr (caughtPaused w2 task2, task2)
                else if msg = js ''CANCELLED'' then Inr (caughtCancelled w2 task2, task2)
                else if retryCount task2 < maxRetries config then
                  (let task3 = task2\<lparr>retryCount := retryCount task2 + 1\<rparr>;
                       w3 = w2\<lparr>trace := trace w2 @ [Delay (retryDelay config * int (retryCount task3))]\<rparr>
                   in executeDownload P config events env (Suc n) w3 task3)
                else
                  (let task3 = task2\<lparr>status := FAILED, error := Some msg\<rparr>
                   in Inr (emit (onError events) (OnError (t_id task3) msg) w2, task3)))))"
  by pat_completeness auto
termination
  by (relation "measure (\<lambda>(P, config, events, env, n, w, task). maxRetries config - retryCount task)")
     (auto dest!: tryBlock_retryCount [OF sym])

declare executeDownload.simps [simp del]

text \<open>\<open>downloadOne\<close>: create the task, then execute it.\<close>

definition downloadOne ::
  "platform \<Rightarrow> jsstring \<Rightarrow> AppConfig option \<Rightarrow> MediaInfo \<Rightarrow> PartialDownloadConfig
     \<Rightarrow> jsstring option \<Rightarrow> DownloadEvents \<Rightarrow> (nat \<Rightarrow> attempt) \<Rightarrow> registry \<times> world
     \<Rightarrow> exec_error + world \<times> DownloadTask" where
  "downloadOne P newId store m config custom events env rw =
     (let downloadConfig = spread (getDownloadConfig P store) config;
          (task, r', w') = createDownloadTask P newId store m config custom rw
      in executeDownload P downloadConfig events env 0 w' task)"

subsection \<open>The concurrency bound of \<open>downloadAll\<close>\<close>

text \<open>\<open>pLimit\<close> of the package p-limit accepts a positive integer and throws a
  \<open>TypeError\<close> for any other number; the limiter it returns runs at most that many of the
  functions handed to it at a time.\<close>

datatype limit_error = TypeError

definition pLimit :: "int \<Rightarrow> limit_error + int" where
  "pLimit concurrency = (if concurrency > 0 then Inr concurrency else Inl TypeError)"

text \<open>The bound under which \<open>downloadAll\<close> runs its batch: \<open>downloadConfig\<close> is the stored
  configuration overridden by the argument \<open>config\<close>, and the limiter is made from its
  \<open>concurrentDownloads\<close>.\<close>

definition downloadAll_limit ::
  "platform \<Rightarrow> AppConfig option \<Rightarrow> PartialDownloadConfig \<Rightarrow> limit_error + int" where
  "downloadAll_limit P store config =
     (let downloadConfig = spread (getDownloadConfig P store) config
      in pLimit (concurrentDownloads downloadConfig))"

section \<open>A platform for worked examples\<close>

text \<open>A concrete platform, used where a property is run on an example: ASCII lower-casing,
  decimal numbers, one fixed instant for the two date renderings, paths joined with a slash,
  sizes printed in bytes and percentages rounded half up.\<close>

function digits :: "nat \<Rightarrow> jsstring" where
  "digits n = (if n < 10 then [of_nat (48 + n)] else digits (n div 10) @ [of_nat (48 + n mod 10)])"
  by pat_completeness auto
termination
  by (relation "measure id") auto

definition decimal :: "int \<Rightarrow> jsstring" where
  "decimal i = (if i < 0 then 0x2D # digits (nat (- i)) else digits (nat i))"

definition examplePlatform :: platform where
  "examplePlatform =
     \<lparr>toLowerCase = map (\<lambda>c. if 0x41 \<le> c \<and> c \<le> 0x5A then c + 0x20 else c),
      numberToString = decimal,
      toISOString = (\<lambda>d. js ''2024-01-02T03:04:05.000Z''),
      toTimeString = (\<lambda>d. js ''03:04:05 GMT+0000 (Coordinated Universal Time)''),
      path_join = (\<lambda>a b. a @ slash # b),
      path_dirname = (\<lambda>p. rev (drop 1 (dropWhile (\<lambda>c. c \<noteq> slash) (rev p)))),
      formatFileSize = (\<lambda>n. decimal n @ js '' B''),
      percentage = (\<lambda>d t. if t = 0 then 0 else (200 * d + t) div (2 * t)),
      homedir = js ''/home/user''\<rparr>"

definition exampleMedia :: MediaInfo where
  "exampleMedia =
     \<lparr>mi_id = js ''m1'', messageId = 7, chatId = js ''100'', chatTitle = js ''chat'',
      mi_type = VIDEO, mimeType = Some (js ''video/mp4''), fileName = None, fileSize = 1000,
      fileSizeFormatted = js ''1000 B'', downloadable = DOWNLOADABLE, downloadableReason = None,
      mi_date = 1704164645000, caption = None, duration = Some 10, width = Some 640,
      height = Some 480\<rparr>"

definition exampleTask :: DownloadTask where
  "exampleTask =
     \<lparr>t_id = js ''t1'', media = exampleMedia, status = PENDING, progress = 0,
      downloadedBytes = 0, outputPath = js ''/out/videos/clip.mp4'', customFileName = None,
      error = None, retryCount = 0\<rparr>"

definition emptyWorld :: world where
  "emptyWorld =
     \<lparr>files = Map.empty, undeletable = {}, pausedTasks = {}, cancelledTasks = {}, trace = []\<rparr>"

definition allEvents :: DownloadEvents where
  "allEvents =
     \<lparr>onStart = True, onProgress = True, onComplete = True, onError = True, onPause = True,
      onResume = True\<rparr>"

definition bigVideo :: api_message where
  "bigVideo =
     \<lparr>msg_id = 7,
      msg_media = Some (MessageMediaDocument
        (Document 3221225472 (js ''video/mp4'') [DocumentAttributeVideo False 10 640 480])),
      msg_date = 1700000000,
      msg_message = []\<rparr>"

definition exampleVars :: FileNameVariables where
  "exampleVars =
     \<lparr>v_id = js ''m1'', v_chatTitle = js ''chat'', v_chatId = js ''100'',
      v_date = js ''2024-01-02'', v_time = js ''03-04-05'', v_type = js ''video'',
      v_originalName = js ''clip.mp4'', v_extension = js ''mp4'', v_caption = [],
      v_messageId = js ''7''\<rparr>"

text \<open>An environment in which the client is connected, the message is found and the transfer
  delivers three bytes without a progress report.\<close>

definition idleEnv :: "nat \<Rightarrow> attempt" where
  "idleEnv k =
     \<lparr>a_client = True, a_getEntity = Returns (), a_getMessages = Returns (Some [Message True]),
      a_steps = [], a_downloadMedia = Returns (Some [1, 2, 3])\<rparr>"

text \<open>A world in which the output path of \<open>exampleTask\<close> and its marker path are taken.\<close>

definition existingWorld :: world where
  "existingWorld =
     emptyWorld\<lparr>files := [js ''/out/videos/clip.mp4'' \<mapsto> Bytes [1],
                          js ''/out/videos/clip.mp4.dlstate'' \<mapsto> Bytes [0]]\<rparr>"

section \<open>Observations on an execution\<close>

text \<open>The kinds of events that the properties below count in a trace: calls to the Telegram
  client, invocations of \<open>onError\<close>, and the schedule of an execution (each entry into the
  \<open>try\<close> block begins with \<open>getEntity\<close>, each wait is a \<open>Delay\<close>).\<close>

definition isClientCall :: "event \<Rightarrow> bool" where
  "isClientCall e =
     (case e of GetEntity c \<Rightarrow> True | GetMessages i \<Rightarrow> True | DownloadMedia i \<Rightarrow> True
      | _ \<Rightarrow> False)"

definition isOnError :: "event \<Rightarrow> bool" where
  "isOnError e = (case e of OnError i m \<Rightarrow> True | _ \<Rightarrow> False)"

definition isSchedule :: "event \<Rightarrow> bool" where
  "isSchedule e = (case e of GetEntity c \<Rightarrow> True | Delay d \<Rightarrow> True | _ \<Rightarrow> False)"

text \<open>The status and the error of the task when the execution has returned.\<close>

definition finalStatus :: "exec_error + world \<times> DownloadTask \<Rightarrow> DownloadStatus option" where
  "finalStatus r = (case r of Inl e \<Rightarrow> None | Inr (w, task) \<Rightarrow> Some (status task))"

definition finalError :: "exec_error + world \<times> DownloadTask \<Rightarrow> jsstring option option" where
  "finalError r = (case r of Inl e \<Rightarrow> None | Inr (w, task) \<Rightarrow> Some (error task))"

text \<open>What the progress callback never changes.\<close>

definition untouched :: "world \<Rightarrow> DownloadTask \<Rightarrow> world \<Rightarrow> DownloadTask \<Rightarrow> bool" where
  "untouched w task w' task' \<longleftrightarrow>
     files w' = files w \<and> undeletable w' = undeletable w
     \<and> t_id task' = t_id task \<and> media task' = media task
     \<and> outputPath task' = outputPath task \<and> error task' = error task
     \<and> retryCount task' = retryCount task
     \<and> filter isOnError (trace w') = filter isOnError (trace w)
     \<and> filter isSchedule (trace w') = filter isSchedule (trace w)
     \<and> filter isClientCall (trace w') = filter isClientCall (trace w)"

text \<open>The entry at a path, if there is one, can be unlinked: it is not a directory and the
  system does not refuse its removal.\<close>

definition removable :: "jsstring \<Rightarrow> world \<Rightarrow> bool" where
  "removable p w \<longleftrightarrow> files w p \<noteq> Some Directory \<and> p \<notin> undeletable w"


text \<open>The state in which \<open>downloadMedia\<close> is called when the message has been found: the
  state at entry, with the trace extended and the output directory created.\<close>

definition transferStart :: "platform \<Rightarrow> DownloadEvents \<Rightarrow> world \<Rightarrow> DownloadTask \<Rightarrow> world" where
  "transferStart P events w task =
     (let w1 = emit (onStart events) (OnStart (t_id task)) w;
          w2 = w1\<lparr>trace := trace w1 @ [GetEntity (chatId (media task)),
                                        GetMessages (messageId (media task))]\<rparr>;
          w3 = ensureDir (path_dirname P (outputPath task)) w2
      in w3\<lparr>trace := trace w3 @ [DownloadMedia (t_id task)]\<rparr>)"

text \<open>No call of \<open>pauseDownload\<close> or \<open>cancelDownload\<close> for task \<open>i\<close> happens during the
  steps \<open>ss\<close>.\<close>

definition quietFor :: "jsstring \<Rightarrow> step list \<Rightarrow> bool" where
  "quietFor i ss \<longleftrightarrow> PauseCall i \<notin> set ss \<and> CancelCall i \<notin> set ss"

text \<open>The transfer of an attempt fails with the description \<open>msg\<close>: the message is found
  with its media, and \<open>downloadMedia\<close> throws \<open>msg\<close> or returns nothing, which the source
  turns into an error of its own.\<close>

definition transferFails :: "attempt \<Rightarrow> jsstring \<Rightarrow> bool" where
  "transferFails a msg \<longleftrightarrow>
     a_getEntity a = Returns ()
     \<and> (case a_getMessages a of Returns (Some (m # ms)) \<Rightarrow> m = Message True | _ \<Rightarrow> False)
     \<and> (case a_downloadMedia a of
          Throws e \<Rightarrow> msg = e
        | Returns None \<Rightarrow> msg = EMPTY_DOWNLOAD
        | Returns (Some buffer) \<Rightarrow> False)"

section \<open>The classifier\<close>

definition smallVoice :: api_message where
  "smallVoice =
     \<lparr>msg_id = 8,
      msg_media = Some (MessageMediaDocument
        (Document 2147483648 (js ''audio/ogg'') [DocumentAttributeAudio True 5])),
      msg_date = 1700000000,
      msg_message = []\<rparr>"

text \<open>The attributes of a document decide the type of the record and nothing of its size.\<close>

lemma applyAttribute_size: "x_fileSize (applyAttribute x a) = x_fileSize x"
  by (cases a) simp_all

lemma attributes_size: "x_fileSize (foldl applyAttribute x attrs) = x_fileSize x"
  by (induction attrs arbitrary: x) (simp_all add: applyAttribute_size)

lemma extractDocument_size:
  "x_fileSize (extractDocument P mid (Document sz mime attrs) x) = sz"
  by (simp add: extractDocument_def Let_def attributes_size)

lemma extractPhoto_size:
  "x_fileSize (extractPhoto P mid ph x)
     = (case ph of
          Photo sizes \<Rightarrow>
            (if sizes = [] then x_fileSize x
             else (case last sizes of PhotoSize sz w h \<Rightarrow> sz | OtherPhotoSize \<Rightarrow> x_fileSize x))
        | OtherPhoto \<Rightarrow> x_fileSize x)"
  by (simp add: extractPhoto_def Let_def split: photo.splits photo_size.splits)

text \<open>
  C1. The classifier reads the size of a record from the message and decides the verdict by that
  size alone. For a document of \<open>sz\<close> bytes, whatever its MIME type and its attributes (which
  decide the type), the record has \<open>fileSize = sz\<close>, and its verdict is \<open>TOO_LARGE\<close> when
  \<open>sz\<close> is strictly above 2 GiB (\<open>2 * 1024 * 1024 * 1024\<close> bytes) and \<open>DOWNLOADABLE\<close>
  when \<open>sz\<close> is at most 2 GiB. For a photo whose last size is a \<open>PhotoSize\<close> of \<open>sz\<close>
  bytes the record is a \<open>PHOTO\<close> with \<open>fileSize = sz\<close> and the verdict decided in the same
  way. Where the message carries no size (a photo without a usable last size, a document of
  another class) the record has \<open>fileSize = 0\<close> and is \<open>DOWNLOADABLE\<close>. A message
  with no media or with media of another kind gives no record, and only such a message. Whatever
  record the classifier produces, its verdict is \<open>TOO_LARGE\<close> when its \<open>fileSize\<close> is above
  2 GiB and \<open>DOWNLOADABLE\<close> otherwise: the classifier has no other restriction.
\<close>

theorem classification_by_size:
  "(\<forall>sz mime attrs.
      msg_media message = Some (MessageMediaDocument (Document sz mime attrs)) \<longrightarrow>
        (\<exists>m. extractMediaInfo P newId message cid ctitle = Some m
           \<and> fileSize m = sz
           \<and> downloadable m
               = (if 2 * 1024 * 1024 * 1024 < sz then TOO_LARGE else DOWNLOADABLE)))
   \<and> (\<forall>sizes sz w h.
        msg_media message = Some (MessageMediaPhoto (Photo sizes))
        \<and> sizes \<noteq> [] \<and> last sizes = PhotoSize sz w h \<longrightarrow>
          (\<exists>m. extractMediaInfo P newId message cid ctitle = Some m
             \<and> mi_type m = PHOTO
             \<and> fileSize m = sz
             \<and> downloadable m
                 = (if 2 * 1024 * 1024 * 1024 < sz then TOO_LARGE else DOWNLOADABLE)))
   \<and> (msg_media message = Some (MessageMediaDocument OtherDocument)
        \<or> msg_media message = Some (MessageMediaPhoto OtherPhoto)
        \<or> (\<exists>sizes. msg_media message = Some (MessageMediaPhoto (Photo sizes))
                   \<and> (sizes = [] \<or> last sizes = OtherPhotoSize)) \<longrightarrow>
          (\<exists>m. extractMediaInfo P newId message cid ctitle = Some m
             \<and> fileSize m = 0
             \<and> downloadable m = DOWNLOADABLE))
   \<and> (msg_media message = None \<or> msg_media message = Some OtherMedia
        \<longleftrightarrow> extractMediaInfo P newId message cid ctitle = None)
   \<and> (\<forall>m. extractMediaInfo P newId message cid ctitle = Some m \<longrightarrow>
          (2 * 1024 * 1024 * 1024 < fileSize m \<longrightarrow> downloadable m = TOO_LARGE)
          \<and> (fileSize m \<le> 2 * 1024 * 1024 * 1024 \<longrightarrow> downloadable m = DOWNLOADABLE))"
proof (intro conjI allI impI)
  fix sz mime attrs
  assume "msg_media message = Some (MessageMediaDocument (Document sz mime attrs))"
  then show "\<exists>m. extractMediaInfo P newId message cid ctitle = Some m
           \<and> fileSize m = sz
           \<and> downloadable m
               = (if 2 * 1024 * 1024 * 1024 < sz then TOO_LARGE else DOWNLOADABLE)"
    by (simp add: extractMediaInfo_def MAX_FILE_SIZE_def Let_def extractDocument_size)
next
  fix sizes sz w h
  assume "msg_media message = Some (MessageMediaPhoto (Photo sizes))
          \<and> sizes \<noteq> [] \<and> last sizes = PhotoSize sz w h"
  then show "\<exists>m. extractMediaInfo P newId message cid ctitle = Some m
             \<and> mi_type m = PHOTO
             \<and> fileSize m = sz
             \<and> downloadable m
                 = (if 2 * 1024 * 1024 * 1024 < sz then TOO_LARGE else DOWNLOADABLE)"
    by (simp add: extractMediaInfo_def MAX_FILE_SIZE_def Let_def extractPhoto_size)
       (simp add: extractPhoto_def Let_def)
next
  assume "msg_media message = Some (MessageMediaDocument OtherDocument)
        \<or> msg_media message = Some (MessageMediaPhoto OtherPhoto)
        \<or> (\<exists>sizes. msg_media message = Some (MessageMediaPhoto (Photo sizes))
                   \<and> (sizes = [] \<or> last sizes = OtherPhotoSize))"
  then show "\<exists>m. extractMediaInfo P newId message cid ctitle = Some m
             \<and> fileSize m = 0
             \<and> downloadable m = DOWNLOADABLE"
    by (auto simp: extractMediaInfo_def MAX_FILE_SIZE_def Let_def extractPhoto_size
          extractDocument_def)
next
  show "(msg_media message = None \<or> msg_media message = Some OtherMedia)
          = (extractMediaInfo P newId message cid ctitle = None)"
    by (auto simp: extractMediaInfo_def Let_def split: option.splits message_media.splits)
next
  fix m
  assume "extractMediaInfo P newId message cid ctitle = Some m"
    and "2 * 1024 * 1024 * 1024 < fileSize m"
  then show "downloadable m = TOO_LARGE"
    by (auto simp: extractMediaInfo_def MAX_FILE_SIZE_def Let_def
          split: option.splits message_media.splits if_splits)
next
  fix m
  assume "extractMediaInfo P newId message cid ctitle = Some m"
    and "fileSize m \<le> 2 * 1024 * 1024 * 1024"
  then show "downloadable m = DOWNLOADABLE"
    by (auto simp: extractMediaInfo_def MAX_FILE_SIZE_def Let_def
          split: option.splits message_media.splits if_splits)
qed

text \<open>A video document of 3 GiB is classified as a video of 3 GiB, too large; a voice message
  of exactly 2 GiB is classified as a voice message of 2 GiB, downloadable.\<close>

theorem classification_by_size_witness:
  "msg_media bigVideo
     = Some (MessageMediaDocument
         (Document 3221225472 (js ''video/mp4'') [DocumentAttributeVideo False 10 640 480]))
   \<and> (\<exists>m. extractMediaInfo examplePlatform (js ''id'') bigVideo (js ''1'') (js ''chat'') = Some m
          \<and> fileSize m = 3221225472 \<and> mi_type m = VIDEO \<and> downloadable m = TOO_LARGE)
   \<and> msg_media smallVoice
       = Some (MessageMediaDocument
           (Document 2147483648 (js ''audio/ogg'') [DocumentAttributeAudio True 5]))
   \<and> (\<exists>m. extractMediaInfo examplePlatform (js ''id'') smallVoice (js ''1'') (js ''chat'') = Some m
          \<and> fileSize m = 2147483648 \<and> mi_type m = VOICE \<and> downloadable m = DOWNLOADABLE)"
proof -
  have big: "msg_media bigVideo
     = Some (MessageMediaDocument
         (Document 3221225472 (js ''video/mp4'') [DocumentAttributeVideo False 10 640 480]))"
    by (simp add: bigVideo_def)
  have small: "msg_media smallVoice
     = Some (MessageMediaDocument
         (Document 2147483648 (js ''audio/ogg'') [DocumentAttributeAudio True 5]))"
    by (simp add: smallVoice_def)
  have types: "\<And>m. extractMediaInfo examplePlatform (js ''id'') bigVideo (js ''1'') (js ''chat'')
                       = Some m \<Longrightarrow> mi_type m = VIDEO"
    "\<And>m. extractMediaInfo examplePlatform (js ''id'') smallVoice (js ''1'') (js ''chat'')
            = Some m \<Longrightarrow> mi_type m = VOICE"
    by (auto simp: extractMediaInfo_def bigVideo_def smallVoice_def extractDocument_def Let_def
          orElse_def)
  from classification_by_size [of bigVideo examplePlatform "js ''id''" "js ''1''" "js ''chat''"]
    big
  obtain m1 where m1: "extractMediaInfo examplePlatform (js ''id'') bigVideo (js ''1'') (js ''chat'')
                         = Some m1"
    "fileSize m1 = 3221225472" "downloadable m1 = TOO_LARGE"
    by auto
  from classification_by_size [of smallVoice examplePlatform "js ''id''" "js ''1''" "js ''chat''"]
    small
  obtain m2 where m2: "extractMediaInfo examplePlatform (js ''id'') smallVoice (js ''1'')
                         (js ''chat'') = Some m2"
    "fileSize m2 = 2147483648" "downloadable m2 = DOWNLOADABLE"
    by auto
  from m1 m2 types big small show ?thesis
    by auto
qed

section \<open>The task factory\<close>

text \<open>
  C5. The output path computed by \<open>generateOutputPath\<close> depends on the record, the
  configuration and the override only, not on the state in which it is called. So a second call
  with the same arguments, made in the state the first call left behind (its directory now
  exists), yields the same path, code unit for code unit.
\<close>

theorem naming_idempotent:
  "fst (generateOutputPath P m config custom (snd (generateOutputPath P m config custom w)))
     = fst (generateOutputPath P m config custom w)
   \<and> fst (generateOutputPath P m config custom w') = fst (generateOutputPath P m config custom w)"
  by (simp add: generateOutputPath_def Let_def)

section \<open>The override of the file name\<close>

text \<open>\<open>path.extname\<close> returns a text that starts at a dot of the path, so a path with an
  extension contains a dot. The invariant of the loop: \<open>startDot\<close> is unset or the index of a
  dot.\<close>

definition dotSeen :: "jsstring \<Rightarrow> ext_state \<Rightarrow> bool" where
  "dotSeen p s \<longleftrightarrow>
     startDot s = -1
     \<or> (0 \<le> startDot s \<and> nat (startDot s) < length p \<and> p ! nat (startDot s) = dot)"

lemma ext_step_dotSeen:
  "i < length p \<Longrightarrow> dotSeen p s \<Longrightarrow> dotSeen p (fst (ext_step i (p ! i) s))"
  by (auto simp: ext_step_def dotSeen_def Let_def)

lemma ext_loop_dotSeen:
  "i \<le> length p \<Longrightarrow> dotSeen p s \<Longrightarrow> dotSeen p (ext_loop p i s)"
proof (induction i arbitrary: s)
  case 0
  then show ?case by simp
next
  case (Suc i)
  obtain s' brk where st: "ext_step i (p ! i) s = (s', brk)"
    by (cases "ext_step i (p ! i) s")
  from Suc.prems have "dotSeen p (fst (ext_step i (p ! i) s))"
    by (intro ext_step_dotSeen) simp_all
  with st have "dotSeen p s'" by simp
  with Suc st show ?case by simp
qed

lemma extname_has_dot:
  assumes "extname p \<noteq> []"
  shows "dot \<in> set p"
proof -
  let ?s = "ext_loop p (length p)
              \<lparr>startDot = -1, startPart = 0, endIdx = -1, matchedSlash = True, preDotState = 0\<rparr>"
  have "dotSeen p ?s"
    by (rule ext_loop_dotSeen) (simp_all add: dotSeen_def)
  moreover from assms have "startDot ?s \<noteq> -1"
    by (auto simp: extname_def Let_def split: if_splits)
  ultimately have "nat (startDot ?s) < length p" "p ! nat (startDot ?s) = dot"
    by (simp_all add: dotSeen_def)
  then show ?thesis
    by (metis nth_mem)
qed

lemma extname_hidden: "extname (js ''.hidden'') = []"
  by (simp add: extname_def ext_step_def js_def dot_def slash_def)

lemma example_extension:
  "getExtension examplePlatform (orElse (fileName exampleMedia) []) (mimeType exampleMedia)
     = js ''.mp4''"
  by (simp add: getExtension_def exampleMedia_def orElse_def extname_def examplePlatform_def
        mimeToExt_def js_def)

text \<open>
  C8, as the claim states it, fails for an override that contains a dot and has no extension:
  \<open>.hidden\<close> has no extension (\<open>path.extname\<close> gives the empty text for a name that is a
  leading dot and letters), the record's inferred extension is \<open>.mp4\<close>, and the file name
  is \<open>.hidden\<close>, with nothing appended.
\<close>

theorem override_counterexample:
  "extname (js ''.hidden'') = []
   \<and> getExtension examplePlatform (orElse (fileName exampleMedia) []) (mimeType exampleMedia)
       = js ''.mp4''
   \<and> outputFileName examplePlatform exampleMedia (DEFAULT_DOWNLOAD_CONFIG examplePlatform)
        (Some (js ''.hidden'')) = js ''.hidden''
   \<and> outputFileName examplePlatform exampleMedia (DEFAULT_DOWNLOAD_CONFIG examplePlatform)
        (Some (js ''.hidden''))
       \<noteq> js ''.hidden''
           @ getExtension examplePlatform (orElse (fileName exampleMedia) []) (mimeType exampleMedia)"
proof -
  have "outputFileName examplePlatform exampleMedia (DEFAULT_DOWNLOAD_CONFIG examplePlatform)
          (Some (js ''.hidden'')) = js ''.hidden''"
    by (simp add: outputFileName_def orElse_def Let_def js_def dot_def)
  then show ?thesis
    by (simp add: extname_hidden example_extension) (simp add: js_def)
qed

text \<open>
  C8, amended. For a non-empty override the file name is the override itself when the override
  contains a dot, and the override followed by the record's inferred extension when it contains
  none. So an override that has an extension is used unchanged, and the extension is appended
  only to an override that has none; an override with a dot and no extension (\<open>.hidden\<close>,
  \<open>v1.0/clip\<close>) is used unchanged as well. The output path is \<open>path.join\<close> of the directory
  and this file name.
\<close>

theorem override_file_name:
  assumes "custom = Some c" and "c \<noteq> []"
  shows "outputFileName P m config custom
           = (if dot \<in> set c then c
              else c @ getExtension P (orElse (fileName m) []) (mimeType m))
         \<and> (extname c \<noteq> [] \<longrightarrow> outputFileName P m config custom = c)
         \<and> (\<exists>dir. fst (generateOutputPath P m config custom w)
                     = path_join P dir (outputFileName P m config custom))"
  using assms extname_has_dot [of c]
  by (auto simp: outputFileName_def generateOutputPath_def orElse_def Let_def)

theorem override_file_name_witness:
  "js ''holiday'' \<noteq> []
   \<and> outputFileName examplePlatform exampleMedia (DEFAULT_DOWNLOAD_CONFIG examplePlatform)
        (Some (js ''holiday'')) = js ''holiday.mp4''
   \<and> extname (js ''trip.mov'') = js ''.mov''
   \<and> outputFileName examplePlatform exampleMedia (DEFAULT_DOWNLOAD_CONFIG examplePlatform)
        (Some (js ''trip.mov'')) = js ''trip.mov''"
proof -
  have ne: "js ''holiday'' \<noteq> []" "js ''trip.mov'' \<noteq> []"
    by (simp_all add: js_def)
  have nodot: "dot \<notin> set (js ''holiday'')"
    by (simp add: js_def dot_def)
  have ext: "extname (js ''trip.mov'') = js ''.mov''"
    by (simp add: extname_def ext_step_def js_def dot_def slash_def)
  have ext': "extname (js ''trip.mov'') \<noteq> []"
    by (simp add: ext) (simp add: js_def)
  from override_file_name [OF refl ne(1), of examplePlatform exampleMedia
      "DEFAULT_DOWNLOAD_CONFIG examplePlatform" emptyWorld]
    override_file_name [OF refl ne(2), of examplePlatform exampleMedia
      "DEFAULT_DOWNLOAD_CONFIG examplePlatform" emptyWorld]
  show ?thesis
    using ne nodot ext ext' by (simp add: example_extension) (simp add: js_def dot_def)
qed

section \<open>The transfer and the control flags\<close>

lemma js_signals [simp]:
  "js ''PAUSED'' \<noteq> js ''CANCELLED''" "js ''CANCELLED'' \<noteq> js ''PAUSED''"
  by (simp_all add: js_def)

lemma event_kinds:
  "isSchedule (Delay d)" "isSchedule (GetEntity c)" "\<not> isSchedule (OnError i m)"
  "isOnError (OnError i m)" "\<not> isOnError (Delay d)"
  by (simp_all add: isSchedule_def isOnError_def)


text \<open>Whether and how the progress callback aborts a transfer is decided by the two flag sets,
  the identifier of the task and the steps; nothing else of the state matters.\<close>

lemma runTransfer_signal:
  "pausedTasks w = pausedTasks v \<Longrightarrow> cancelledTasks w = cancelledTasks v \<Longrightarrow> t_id task = t_id u \<Longrightarrow>
     snd (runTransfer P events w task ss) = snd (runTransfer Q ev v u ss)"
proof (induction ss arbitrary: w v task u)
  case Nil
  then show ?case by simp
next
  case (Cons s ss)
  show ?case
  proof (cases s)
    case (Progress d t)
    show ?thesis
    proof (cases "t_id task \<in> pausedTasks w \<or> t_id task \<in> cancelledTasks w")
      case True
      with Cons.prems Progress show ?thesis by auto
    next
      case False
      let ?t1 = "task\<lparr>downloadedBytes := d, progress := percentage P d t\<rparr>"
      let ?u1 = "u\<lparr>downloadedBytes := d, progress := percentage Q d t\<rparr>"
      let ?w1 = "emit (onProgress events) (OnProgress (t_id task) (progress ?t1)) w"
      let ?v1 = "emit (onProgress ev) (OnProgress (t_id u) (progress ?u1)) v"
      have "snd (runTransfer P events ?w1 ?t1 ss) = snd (runTransfer Q ev ?v1 ?u1 ss)"
        using Cons.prems by (intro Cons.IH) (simp_all add: emit_def)
      with False Cons.prems Progress show ?thesis by (simp add: Let_def)
    qed
  next
    case (PauseCall i)
    have "snd (runTransfer P events (pauseDownload i w) task ss)
            = snd (runTransfer Q ev (pauseDownload i v) u ss)"
      using Cons.prems by (intro Cons.IH) (simp_all add: pauseDownload_def)
    with PauseCall show ?thesis by simp
  next
    case (CancelCall i)
    have "snd (runTransfer P events (cancelDownload i w) task ss)
            = snd (runTransfer Q ev (cancelDownload i v) u ss)"
      using Cons.prems by (intro Cons.IH) (simp_all add: cancelDownload_def)
    with CancelCall show ?thesis by simp
  qed
qed

lemma untouched_refl: "untouched w task w task"
  by (simp add: untouched_def)

lemma untouched_trans:
  "untouched w task w1 task1 \<Longrightarrow> untouched w1 task1 w2 task2 \<Longrightarrow> untouched w task w2 task2"
  by (simp add: untouched_def)

lemma untouched_pause: "untouched w task (pauseDownload i w) task"
  by (simp add: untouched_def pauseDownload_def)

lemma untouched_cancel: "untouched w task (cancelDownload i w) task"
  by (simp add: untouched_def cancelDownload_def)

lemma untouched_progress:
  "untouched w task (emit b (OnProgress i p) w) (task\<lparr>downloadedBytes := d, progress := q\<rparr>)"
  by (simp add: untouched_def emit_def isOnError_def isSchedule_def isClientCall_def)

lemma untouched_paused:
  "untouched w task (emit b (OnPause i) w) (task\<lparr>status := s\<rparr>)"
  by (simp add: untouched_def emit_def isOnError_def isSchedule_def isClientCall_def)

lemma untouched_status: "untouched w task w (task\<lparr>status := s\<rparr>)"
  by (simp add: untouched_def)

lemma runTransfer_untouched:
  "runTransfer P events w task ss = ((w', task'), r) \<Longrightarrow> untouched w task w' task'"
proof (induction ss arbitrary: w task)
  case Nil
  then show ?case by (simp add: untouched_refl)
next
  case (Cons s ss)
  show ?case
  proof (cases s)
    case (Progress d t)
    show ?thesis
    proof (cases "t_id task \<in> pausedTasks w")
      case True
      with Cons.prems Progress show ?thesis by (auto simp: untouched_paused)
    next
      case notPaused: False
      show ?thesis
      proof (cases "t_id task \<in> cancelledTasks w")
        case True
        with notPaused Cons.prems Progress show ?thesis by (auto simp: untouched_status)
      next
        case False
        with notPaused Cons.prems Progress
        have "untouched (emit (onProgress events) (OnProgress (t_id task) (percentage P d t)) w)
                (task\<lparr>downloadedBytes := d, progress := percentage P d t\<rparr>) w' task'"
          by (intro Cons.IH) (simp add: Let_def)
        with untouched_progress show ?thesis by (rule untouched_trans)
      qed
    qed
  next
    case (PauseCall i)
    with Cons.prems have "untouched (pauseDownload i w) task w' task'"
      by (intro Cons.IH) simp
    with untouched_pause show ?thesis by (rule untouched_trans)
  next
    case (CancelCall i)
    with Cons.prems have "untouched (cancelDownload i w) task w' task'"
      by (intro Cons.IH) simp
    with untouched_cancel show ?thesis by (rule untouched_trans)
  qed
qed

lemma suffix_nonempty: "DOWNLOAD_STATE_SUFFIX \<noteq> []"
  by (simp add: DOWNLOAD_STATE_SUFFIX_def js_def)




lemma transferStart_undeletable:
  "undeletable (transferStart P events w task) = undeletable w"
  by (simp add: transferStart_def Let_def emit_def ensureDir_def)

lemma transferStart_flags:
  "pausedTasks (transferStart P events w task) = pausedTasks w"
  "cancelledTasks (transferStart P events w task) = cancelledTasks w"
  by (simp_all add: transferStart_def Let_def emit_def ensureDir_def)

lemma transferStart_onError:
  "filter isOnError (trace (transferStart P events w task)) = filter isOnError (trace w)"
  by (simp add: transferStart_def Let_def emit_def ensureDir_def isOnError_def)

lemma tryBlock_transfer:
  assumes "a_getEntity a = Returns ()" and "a_getMessages a = Returns (Some (Message True # ms))"
  shows "tryBlock P events a (emit (onStart events) (OnStart (t_id task)) w)
           (task\<lparr>status := DOWNLOADING\<rparr>)
         = (case runTransfer P events (transferStart P events w task)
                  (task\<lparr>status := DOWNLOADING\<rparr>) (a_steps a) of
              ((w5, task5), Some msg) \<Rightarrow> ((w5, task5), Some msg)
            | ((w5, task5), None) \<Rightarrow>
                (case a_downloadMedia a of
                   Throws msg \<Rightarrow> ((w5, task5), Some msg)
                 | Returns None \<Rightarrow> ((w5, task5), Some EMPTY_DOWNLOAD)
                 | Returns (Some buffer) \<Rightarrow>
                    (let w6 = w5\<lparr>files := (files w5)(outputPath task5 \<mapsto> Bytes buffer)\<rparr>;
                         w7 = removeDownloadState (outputPath task5) w6;
                         task7 = task5\<lparr>status := COMPLETED, progress := 100,
                                       downloadedBytes := fileSize (media task5)\<rparr>
                     in ((emit (onComplete events) (OnComplete (t_id task7)) w7, task7), None))))"
  using assms by (simp add: tryBlock_def transferStart_def Let_def)

lemma quiet_run:
  assumes "t_id task \<notin> pausedTasks w" and "t_id task \<notin> cancelledTasks w"
    and "quietFor (t_id task) ss"
  shows "\<exists>w' task'. runTransfer P events w task ss = ((w', task'), None)
           \<and> t_id task \<notin> pausedTasks w' \<and> t_id task \<notin> cancelledTasks w'
           \<and> status task' = status task"
  using assms
proof (induction ss arbitrary: w task)
  case Nil
  then show ?case by simp
next
  case (Cons s ss)
  from Cons.prems have q: "quietFor (t_id task) ss"
    by (simp add: quietFor_def)
  show ?case
  proof (cases s)
    case (Progress d t)
    let ?t1 = "task\<lparr>downloadedBytes := d, progress := percentage P d t\<rparr>"
    let ?w1 = "emit (onProgress events) (OnProgress (t_id task) (progress ?t1)) w"
    have "\<exists>w' task'. runTransfer P events ?w1 ?t1 ss = ((w', task'), None)
           \<and> t_id ?t1 \<notin> pausedTasks w' \<and> t_id ?t1 \<notin> cancelledTasks w'
           \<and> status task' = status ?t1"
      using Cons.prems q by (intro Cons.IH) (simp_all add: emit_def)
    with Cons.prems Progress show ?thesis by (simp add: Let_def)
  next
    case (PauseCall i)
    with Cons.prems have "i \<noteq> t_id task" by (auto simp: quietFor_def)
    then have "\<exists>w' task'. runTransfer P events (pauseDownload i w) task ss = ((w', task'), None)
           \<and> t_id task \<notin> pausedTasks w' \<and> t_id task \<notin> cancelledTasks w'
           \<and> status task' = status task"
      using Cons.prems q by (intro Cons.IH) (simp_all add: pauseDownload_def)
    with PauseCall show ?thesis by simp
  next
    case (CancelCall i)
    with Cons.prems have "i \<noteq> t_id task" by (auto simp: quietFor_def)
    then have "\<exists>w' task'. runTransfer P events (cancelDownload i w) task ss = ((w', task'), None)
           \<and> t_id task \<notin> pausedTasks w' \<and> t_id task \<notin> cancelledTasks w'
           \<and> status task' = status task"
      using Cons.prems q by (intro Cons.IH) (simp_all add: cancelDownload_def)
    with CancelCall show ?thesis by simp
  qed
qed

lemma transferStart_files:
  "files (transferStart P events w task) = files (ensureDir (path_dirname P (outputPath task)) w)"
  by (auto simp: transferStart_def Let_def emit_def ensureDir_def fileExists_def)

lemma transferStart_schedule:
  "filter isSchedule (trace (transferStart P events w task))
     = filter isSchedule (trace w) @ [GetEntity (chatId (media task))]"
  by (simp add: transferStart_def Let_def emit_def ensureDir_def isSchedule_def)

text \<open>One failing attempt: what the \<open>try\<close> block returns and what it leaves behind.\<close>

lemma failing_attempt:
  assumes flags: "t_id task \<notin> pausedTasks w" "t_id task \<notin> cancelledTasks w"
    and quiet: "quietFor (t_id task) (a_steps a)"
    and fails: "transferFails a msg"
  shows "\<exists>w' task'.
           tryBlock P events a (emit (onStart events) (OnStart (t_id task)) w)
             (task\<lparr>status := DOWNLOADING\<rparr>) = ((w', task'), Some msg)
           \<and> t_id task' = t_id task \<and> media task' = media task
           \<and> outputPath task' = outputPath task \<and> retryCount task' = retryCount task
           \<and> t_id task \<notin> pausedTasks w' \<and> t_id task \<notin> cancelledTasks w'
           \<and> files w' = files (ensureDir (path_dirname P (outputPath task)) w)
           \<and> filter isSchedule (trace w') = filter isSchedule (trace w) @ [GetEntity (chatId (media task))]
           \<and> filter isOnError (trace w') = filter isOnError (trace w)"
proof -
  let ?t1 = "task\<lparr>status := DOWNLOADING\<rparr>"
  let ?w4 = "transferStart P events w task"
  from fails obtain ms where entity: "a_getEntity a = Returns ()"
    and messages: "a_getMessages a = Returns (Some (Message True # ms))"
    by (auto simp: transferFails_def split: outcome.splits option.splits list.splits)
  from quiet_run [of ?t1 ?w4 "a_steps a" P events] flags quiet
  obtain w5 t5 where run: "runTransfer P events ?w4 ?t1 (a_steps a) = ((w5, t5), None)"
    and f5: "t_id task \<notin> pausedTasks w5" "t_id task \<notin> cancelledTasks w5"
    by (auto simp: transferStart_flags)
  from fails have tb: "tryBlock P events a (emit (onStart events) (OnStart (t_id task)) w) ?t1
                        = ((w5, t5), Some msg)"
    by (auto simp: tryBlock_transfer [OF entity messages] run transferFails_def
          split: outcome.splits option.splits)
  have un: "untouched ?w4 ?t1 w5 t5"
    using run by (rule runTransfer_untouched)
  show ?thesis
    using tb f5 un
    by (simp add: untouched_def transferStart_files transferStart_schedule transferStart_onError)
qed

text \<open>Every attempt fails: the retries run out. Stated for any entry \<open>n\<close> and any retry count
  not above the limit, so that the induction goes through.\<close>

lemma retries_exhausted:
  assumes env: "\<And>k. a_client (env k) \<and> transferFails (env k) (msg k)
                      \<and> msg k \<noteq> js ''PAUSED'' \<and> msg k \<noteq> js ''CANCELLED''
                      \<and> quietFor tid (a_steps (env k))"
    and tid: "t_id task = tid"
    and flags: "tid \<notin> pausedTasks w" "tid \<notin> cancelledTasks w"
    and ok: "downloadable (media task) = DOWNLOADABLE"
    and fresh: "skipExisting config \<longrightarrow>
                  files w (outputPath task) = None
                  \<and> path_dirname P (outputPath task) \<noteq> outputPath task"
    and count: "retryCount task \<le> maxRetries config"
  shows "\<exists>w' task'. executeDownload P config events env n w task = Inr (w', task')
           \<and> status task' = FAILED
           \<and> error task' = Some (msg (n + (maxRetries config - retryCount task)))
           \<and> retryCount task' = maxRetries config
           \<and> filter isSchedule (trace w')
               = filter isSchedule (trace w) @ GetEntity (chatId (media task))
                   # concat (map (\<lambda>k. [Delay (retryDelay config * int k),
                                         GetEntity (chatId (media task))])
                               [Suc (retryCount task) ..< Suc (maxRetries config)])
           \<and> filter isOnError (trace w')
               = filter isOnError (trace w)
                   @ (if onError events
                      then [OnError tid (msg (n + (maxRetries config - retryCount task)))]
                      else [])"
  using tid flags ok fresh count
proof (induction "maxRetries config - retryCount task" arbitrary: n w task)
  case 0
  then have last: "\<not> retryCount task < maxRetries config"
    and eq: "retryCount task = maxRetries config"
    by simp_all
  from env [of n] have a: "a_client (env n)" "transferFails (env n) (msg n)"
    "msg n \<noteq> js ''PAUSED''" "msg n \<noteq> js ''CANCELLED''" "quietFor (t_id task) (a_steps (env n))"
    using "0.prems" by simp_all
  from failing_attempt [OF _ _ a(5) a(2), of w P events] "0.prems"
  obtain w2 t2 where tb: "tryBlock P events (env n) (emit (onStart events) (OnStart (t_id task)) w)
                            (task\<lparr>status := DOWNLOADING\<rparr>) = ((w2, t2), Some (msg n))"
    and keep: "t_id t2 = t_id task" "media t2 = media task" "retryCount t2 = retryCount task"
    and sch: "filter isSchedule (trace w2)
                = filter isSchedule (trace w) @ [GetEntity (chatId (media task))]"
    and err: "filter isOnError (trace w2) = filter isOnError (trace w)"
    by auto
  have noskip: "\<not> (skipExisting config \<and> fileExists (outputPath task) w)"
    using "0.prems" by (simp add: fileExists_def)
  have "executeDownload P config events env n w task
          = Inr (emit (onError events) (OnError (t_id t2) (msg n)) w2,
                 t2\<lparr>status := FAILED, error := Some (msg n)\<rparr>)"
    using a(1,3,4) "0.prems"(4) last keep
    by (subst executeDownload.simps) (simp add: Let_def tb noskip)
  then show ?case
    using keep sch err eq "0.prems"(1)
    by (simp add: emit_def event_kinds)
next
  case (Suc d)
  then have more: "retryCount task < maxRetries config"
    by simp
  from env [of n] have a: "a_client (env n)" "transferFails (env n) (msg n)"
    "msg n \<noteq> js ''PAUSED''" "msg n \<noteq> js ''CANCELLED''" "quietFor (t_id task) (a_steps (env n))"
    using Suc.prems by simp_all
  from failing_attempt [OF _ _ a(5) a(2), of w P events] Suc.prems
  obtain w2 t2 where tb: "tryBlock P events (env n) (emit (onStart events) (OnStart (t_id task)) w)
                            (task\<lparr>status := DOWNLOADING\<rparr>) = ((w2, t2), Some (msg n))"
    and keep: "t_id t2 = t_id task" "media t2 = media task" "retryCount t2 = retryCount task"
      "outputPath t2 = outputPath task"
    and f2: "t_id task \<notin> pausedTasks w2" "t_id task \<notin> cancelledTasks w2"
    and files2: "files w2 = files (ensureDir (path_dirname P (outputPath task)) w)"
    and sch: "filter isSchedule (trace w2)
                = filter isSchedule (trace w) @ [GetEntity (chatId (media task))]"
    and err: "filter isOnError (trace w2) = filter isOnError (trace w)"
    by auto
  let ?t3 = "t2\<lparr>retryCount := retryCount t2 + 1\<rparr>"
  let ?w3 = "w2\<lparr>trace := trace w2 @ [Delay (retryDelay config * int (retryCount ?t3))]\<rparr>"
  have noskip: "\<not> (skipExisting config \<and> fileExists (outputPath task) w)"
    using Suc.prems by (simp add: fileExists_def)
  have step: "executeDownload P config events env n w task
                = executeDownload P config events env (Suc n) ?w3 ?t3"
    using a(1,3,4) Suc.prems(4) more keep
    by (subst executeDownload.simps) (simp add: Let_def tb noskip)
  have fresh3: "skipExisting config \<longrightarrow>
                  files ?w3 (outputPath ?t3) = None
                  \<and> path_dirname P (outputPath ?t3) \<noteq> outputPath ?t3"
    using Suc.prems(5) keep files2 by (auto simp: ensureDir_def fileExists_def)
  have "\<exists>w' task'. executeDownload P config events env (Suc n) ?w3 ?t3 = Inr (w', task')
           \<and> status task' = FAILED
           \<and> error task' = Some (msg (Suc n + (maxRetries config - retryCount ?t3)))
           \<and> retryCount task' = maxRetries config
           \<and> filter isSchedule (trace w')
               = filter isSchedule (trace ?w3) @ GetEntity (chatId (media ?t3))
                   # concat (map (\<lambda>k. [Delay (retryDelay config * int k),
                                         GetEntity (chatId (media ?t3))])
                               [Suc (retryCount ?t3) ..< Suc (maxRetries config)])
           \<and> filter isOnError (trace w')
               = filter isOnError (trace ?w3)
                   @ (if onError events
                      then [OnError tid (msg (Suc n + (maxRetries config - retryCount ?t3)))]
                      else [])"
  proof (rule Suc.hyps(1))
    show "d = maxRetries config - retryCount ?t3"
      using Suc.hyps(2) keep by simp
    show "t_id ?t3 = tid"
      using keep Suc.prems(1) by simp
    show "tid \<notin> pausedTasks ?w3" "tid \<notin> cancelledTasks ?w3"
      using f2 Suc.prems(1) by simp_all
    show "downloadable (media ?t3) = DOWNLOADABLE"
      using keep Suc.prems(4) by simp
    show "skipExisting config \<longrightarrow>
            files ?w3 (outputPath ?t3) = None
            \<and> path_dirname P (outputPath ?t3) \<noteq> outputPath ?t3"
      by (rule fresh3)
    show "retryCount ?t3 \<le> maxRetries config"
      using more keep by simp
  qed
  then obtain w' task' where res: "executeDownload P config events env (Suc n) ?w3 ?t3 = Inr (w', task')"
    and st: "status task' = FAILED"
    and er: "error task' = Some (msg (Suc n + (maxRetries config - retryCount ?t3)))"
    and rc: "retryCount task' = maxRetries config"
    and sc: "filter isSchedule (trace w')
               = filter isSchedule (trace ?w3) @ GetEntity (chatId (media ?t3))
                   # concat (map (\<lambda>k. [Delay (retryDelay config * int k),
                                         GetEntity (chatId (media ?t3))])
                               [Suc (retryCount ?t3) ..< Suc (maxRetries config)])"
    and oe: "filter isOnError (trace w')
               = filter isOnError (trace ?w3)
                   @ (if onError events
                      then [OnError tid (msg (Suc n + (maxRetries config - retryCount ?t3)))]
                      else [])"
    by blast
  have idx: "Suc n + (maxRetries config - retryCount ?t3) = n + (maxRetries config - retryCount task)"
    using more keep by simp
  have upt: "[Suc (retryCount task) ..< Suc (maxRetries config)]
               = Suc (retryCount task) # [Suc (retryCount ?t3) ..< Suc (maxRetries config)]"
    using more keep by (simp add: upt_conv_Cons)
  have sc': "filter isSchedule (trace w')
               = filter isSchedule (trace w) @ GetEntity (chatId (media task))
                   # concat (map (\<lambda>k. [Delay (retryDelay config * int k),
                                         GetEntity (chatId (media task))])
                               [Suc (retryCount task) ..< Suc (maxRetries config)])"
    unfolding upt using sc sch keep by (simp add: event_kinds)
  have oe': "filter isOnError (trace w')
               = filter isOnError (trace w)
                   @ (if onError events
                      then [OnError tid (msg (n + (maxRetries config - retryCount task)))]
                      else [])"
    using oe [unfolded idx] err by (simp add: event_kinds)
  show ?case
    using step res st er [unfolded idx] rc sc' oe' by simp
qed

section \<open>The execution engine\<close>

subsection \<open>Records that are not downloadable\<close>

definition restrictedTask :: DownloadTask where
  "restrictedTask = exampleTask\<lparr>media := exampleMedia\<lparr>downloadable := RESTRICTED\<rparr>\<rparr>"

definition tooLargeTask :: DownloadTask where
  "tooLargeTask =
     exampleTask\<lparr>media := exampleMedia\<lparr>downloadable := TOO_LARGE,
                                          downloadableReason := Some (js ''too large'')\<rparr>\<rparr>"

text \<open>
  C7, as the claim states it, fails where the record carries no reason: a record with the
  verdict \<open>RESTRICTED\<close> and no \<open>downloadableReason\<close> ends with the fixed text
  \<open>NOT_DOWNLOADABLE\<close> as its error, which is not the (absent) reason of the record.
\<close>

theorem not_downloadable_counterexample:
  "a_client (idleEnv 0)
   \<and> downloadable (media restrictedTask) \<noteq> DOWNLOADABLE
   \<and> downloadableReason (media restrictedTask) = None
   \<and> finalStatus (executeDownload examplePlatform (DEFAULT_DOWNLOAD_CONFIG examplePlatform)
         allEvents idleEnv 0 emptyWorld restrictedTask) = Some FAILED
   \<and> finalError (executeDownload examplePlatform (DEFAULT_DOWNLOAD_CONFIG examplePlatform)
         allEvents idleEnv 0 emptyWorld restrictedTask) = Some (Some NOT_DOWNLOADABLE)
   \<and> finalError (executeDownload examplePlatform (DEFAULT_DOWNLOAD_CONFIG examplePlatform)
         allEvents idleEnv 0 emptyWorld restrictedTask)
       \<noteq> Some (downloadableReason (media restrictedTask))"
proof -
  have "executeDownload examplePlatform (DEFAULT_DOWNLOAD_CONFIG examplePlatform) allEvents
          idleEnv 0 emptyWorld restrictedTask
        = Inr (emit True (OnError (t_id restrictedTask) NOT_DOWNLOADABLE) emptyWorld,
               restrictedTask\<lparr>status := FAILED, error := Some NOT_DOWNLOADABLE\<rparr>)"
    by (subst executeDownload.simps)
       (simp add: idleEnv_def restrictedTask_def exampleTask_def exampleMedia_def allEvents_def
          orElse_def Let_def)
  then show ?thesis
    by (simp add: finalStatus_def finalError_def idleEnv_def restrictedTask_def
          exampleTask_def exampleMedia_def)
qed

text \<open>
  C7, amended. With a client connected, executing a task whose record is not
  \<open>DOWNLOADABLE\<close> returns at once: the status is \<open>FAILED\<close>; the error is the record's
  \<open>downloadableReason\<close> when the record has one that is not empty, and the fixed text
  \<open>NOT_DOWNLOADABLE\<close> otherwise; \<open>onError\<close> is invoked with that text when the caller
  supplied it; nothing else is added to the trace (no call to the client, no wait), the files
  are as before and \<open>retryCount\<close> is unchanged.
\<close>

theorem not_downloadable_fails:
  assumes "a_client (env n)" and "downloadable (media task) \<noteq> DOWNLOADABLE"
  shows "\<exists>w' task'. executeDownload P config events env n w task = Inr (w', task')
           \<and> status task' = FAILED
           \<and> error task' = Some (orElse (downloadableReason (media task)) NOT_DOWNLOADABLE)
           \<and> (\<forall>r. downloadableReason (media task) = Some r \<and> r \<noteq> [] \<longrightarrow> error task' = Some r)
           \<and> retryCount task' = retryCount task
           \<and> files w' = files w
           \<and> trace w' = trace w @ (if onError events
                                    then [OnError (t_id task)
                                            (orElse (downloadableReason (media task)) NOT_DOWNLOADABLE)]
                                    else [])"
  using assms
  by (subst executeDownload.simps) (simp add: Let_def emit_def orElse_def)

theorem not_downloadable_fails_witness:
  "a_client (idleEnv 0)
   \<and> downloadable (media tooLargeTask) \<noteq> DOWNLOADABLE
   \<and> (\<exists>w' task'. executeDownload examplePlatform (DEFAULT_DOWNLOAD_CONFIG examplePlatform)
                     allEvents idleEnv 0 emptyWorld tooLargeTask = Inr (w', task')
          \<and> status task' = FAILED
          \<and> error task' = Some (js ''too large'')
          \<and> retryCount task' = 0
          \<and> trace w' = [OnError (js ''t1'') (js ''too large'')])"
proof -
  have client: "a_client (idleEnv 0)"
    by (simp add: idleEnv_def)
  have verdict: "downloadable (media tooLargeTask) \<noteq> DOWNLOADABLE"
    by (simp add: tooLargeTask_def)
  have reason: "downloadableReason (media tooLargeTask) = Some (js ''too large'')"
    "js ''too large'' \<noteq> []"
    by (simp_all add: tooLargeTask_def js_def)
  have start: "retryCount tooLargeTask = 0" "trace emptyWorld = []" "onError allEvents"
    "t_id tooLargeTask = js ''t1''"
    by (simp_all add: tooLargeTask_def exampleTask_def emptyWorld_def allEvents_def)
  from not_downloadable_fails [where env = idleEnv and n = 0 and task = tooLargeTask
      and P = examplePlatform and config = "DEFAULT_DOWNLOAD_CONFIG examplePlatform"
      and events = allEvents and w = emptyWorld, OF client verdict]
  show ?thesis
    using client verdict reason start by (auto simp: orElse_def)
qed

subsection \<open>Skipping a file that exists\<close>

text \<open>
  C4, as the claim states it, fails for a record that is not downloadable: the verdict is
  tested before the file is looked for, so with \<open>skipExisting\<close> set and the file present such
  a task ends \<open>FAILED\<close>, not \<open>COMPLETED\<close>.
\<close>

theorem skip_existing_counterexample:
  "skipExisting (DEFAULT_DOWNLOAD_CONFIG examplePlatform)
   \<and> fileExists (outputPath tooLargeTask) existingWorld
   \<and> finalStatus (executeDownload examplePlatform (DEFAULT_DOWNLOAD_CONFIG examplePlatform)
         allEvents idleEnv 0 existingWorld tooLargeTask) = Some FAILED"
proof -
  have "executeDownload examplePlatform (DEFAULT_DOWNLOAD_CONFIG examplePlatform) allEvents
          idleEnv 0 existingWorld tooLargeTask
        = Inr (emit True (OnError (t_id tooLargeTask) (js ''too large'')) existingWorld,
               tooLargeTask\<lparr>status := FAILED, error := Some (js ''too large'')\<rparr>)"
    by (subst executeDownload.simps)
       (simp add: idleEnv_def tooLargeTask_def exampleTask_def exampleMedia_def allEvents_def
          orElse_def Let_def js_def)
  then show ?thesis
    by (simp add: finalStatus_def DEFAULT_DOWNLOAD_CONFIG_def tooLargeTask_def exampleTask_def
          existingWorld_def emptyWorld_def fileExists_def js_def)
qed

text \<open>
  C4, amended. With a client connected and a record that is \<open>DOWNLOADABLE\<close>, executing a
  task with \<open>skipExisting\<close> set and a file present at its output path ends with status
  \<open>COMPLETED\<close> and \<open>progress = 100\<close>; the trace gains \<open>onComplete\<close> (when supplied) and
  nothing else, so no call is made to the client, and the files are as before.
\<close>

theorem skip_existing_completes:
  assumes "a_client (env n)" and "downloadable (media task) = DOWNLOADABLE"
    and "skipExisting config" and "fileExists (outputPath task) w"
  shows "\<exists>w' task'. executeDownload P config events env n w task = Inr (w', task')
           \<and> status task' = COMPLETED
           \<and> progress task' = 100
           \<and> files w' = files w
           \<and> trace w' = trace w @ (if onComplete events then [OnComplete (t_id task)] else [])
           \<and> filter isClientCall (trace w') = filter isClientCall (trace w)"
  using assms
  by (subst executeDownload.simps) (simp add: Let_def emit_def isClientCall_def)

theorem skip_existing_completes_witness:
  "a_client (idleEnv 0)
   \<and> downloadable (media exampleTask) = DOWNLOADABLE
   \<and> skipExisting (DEFAULT_DOWNLOAD_CONFIG examplePlatform)
   \<and> fileExists (outputPath exampleTask) existingWorld
   \<and> (\<exists>w' task'. executeDownload examplePlatform (DEFAULT_DOWNLOAD_CONFIG examplePlatform)
                     allEvents idleEnv 0 existingWorld exampleTask = Inr (w', task')
          \<and> status task' = COMPLETED
          \<and> progress task' = 100
          \<and> trace w' = [OnComplete (js ''t1'')])"
proof -
  have client: "a_client (idleEnv 0)"
    by (simp add: idleEnv_def)
  have verdict: "downloadable (media exampleTask) = DOWNLOADABLE"
    by (simp add: exampleTask_def exampleMedia_def)
  have skip: "skipExisting (DEFAULT_DOWNLOAD_CONFIG examplePlatform)"
    by (simp add: DEFAULT_DOWNLOAD_CONFIG_def)
  have present: "fileExists (outputPath exampleTask) existingWorld"
    by (simp add: exampleTask_def existingWorld_def emptyWorld_def fileExists_def js_def)
  have start: "trace existingWorld = []" "onComplete allEvents" "t_id exampleTask = js ''t1''"
    by (simp_all add: exampleTask_def existingWorld_def emptyWorld_def allEvents_def)
  from skip_existing_completes [where env = idleEnv and n = 0 and task = exampleTask
      and P = examplePlatform and config = "DEFAULT_DOWNLOAD_CONFIG examplePlatform"
      and events = allEvents and w = existingWorld, OF client verdict skip present]
  show ?thesis
    using client verdict skip present start by auto
qed

subsection \<open>Cancelling during the transfer\<close>

lemma runTransfer_append:
  "runTransfer P events w task pre = ((w1, t1), None) \<Longrightarrow>
     runTransfer P events w task (pre @ ss) = runTransfer P events w1 t1 ss"
  by (induction P events w task pre rule: runTransfer.induct)
     (auto split: if_splits simp: Let_def)

text \<open>Steps that are calls of \<open>pauseDownload\<close> and \<open>cancelDownload\<close> only, with no
  progress report among them.\<close>

definition controlOnly :: "step list \<Rightarrow> bool" where
  "controlOnly ss \<longleftrightarrow> list_all (\<lambda>s. case s of Progress d t \<Rightarrow> False | _ \<Rightarrow> True) ss"

lemma control_run:
  assumes "controlOnly mid" and "PauseCall (t_id task) \<notin> set mid"
    and "t_id task \<notin> pausedTasks w" and "t_id task \<in> cancelledTasks w"
  shows "\<exists>w'. runTransfer P events w task mid = ((w', task), None)
           \<and> t_id task \<notin> pausedTasks w' \<and> t_id task \<in> cancelledTasks w'"
  using assms
proof (induction mid arbitrary: w)
  case Nil
  then show ?case by simp
next
  case (Cons s mid)
  then have rest: "controlOnly mid" "PauseCall (t_id task) \<notin> set mid"
    by (simp_all add: controlOnly_def)
  show ?case
  proof (cases s)
    case (Progress d t)
    with Cons.prems show ?thesis by (simp add: controlOnly_def)
  next
    case (PauseCall i)
    with Cons.prems have "i \<noteq> t_id task" by auto
    with Cons.prems have "\<exists>w'. runTransfer P events (pauseDownload i w) task mid = ((w', task), None)
           \<and> t_id task \<notin> pausedTasks w' \<and> t_id task \<in> cancelledTasks w'"
      using rest by (intro Cons.IH) (simp_all add: pauseDownload_def)
    with PauseCall show ?thesis by simp
  next
    case (CancelCall i)
    from Cons.prems have "\<exists>w'. runTransfer P events (cancelDownload i w) task mid = ((w', task), None)
           \<and> t_id task \<notin> pausedTasks w' \<and> t_id task \<in> cancelledTasks w'"
      using rest by (intro Cons.IH) (simp_all add: cancelDownload_def)
    with CancelCall show ?thesis by simp
  qed
qed

text \<open>A task whose flags are unset is cancelled while its transfer runs, and a progress report
  follows, with no pause of the task up to it: the progress callback observes the cancel
  flag.\<close>

lemma cancel_is_observed:
  assumes flags: "t_id task \<notin> pausedTasks w" "t_id task \<notin> cancelledTasks w"
    and pre: "quietFor (t_id task) pre"
    and mid: "controlOnly mid" "PauseCall (t_id task) \<notin> set mid"
  shows "snd (runTransfer P events w task
                (pre @ CancelCall (t_id task) # mid @ Progress d t # rest))
           = Some (js ''CANCELLED'')"
proof -
  from quiet_run [OF flags pre, of P events]
  obtain w1 t1 where run1: "runTransfer P events w task pre = ((w1, t1), None)"
    and f1: "t_id task \<notin> pausedTasks w1"
    by blast
  from runTransfer_untouched [OF run1] have id1: "t_id t1 = t_id task"
    by (simp add: untouched_def)
  let ?w2 = "cancelDownload (t_id task) w1"
  have "\<exists>w'. runTransfer P events ?w2 t1 mid = ((w', t1), None)
           \<and> t_id t1 \<notin> pausedTasks w' \<and> t_id t1 \<in> cancelledTasks w'"
    using mid f1 id1 by (intro control_run) (simp_all add: cancelDownload_def)
  then obtain w3 where run3: "runTransfer P events ?w2 t1 mid = ((w3, t1), None)"
    and f3: "t_id t1 \<notin> pausedTasks w3" "t_id t1 \<in> cancelledTasks w3"
    by blast
  have "runTransfer P events w task (pre @ CancelCall (t_id task) # mid @ Progress d t # rest)
          = runTransfer P events w1 t1 (CancelCall (t_id task) # mid @ Progress d t # rest)"
    using run1 by (rule runTransfer_append)
  also have "\<dots> = runTransfer P events ?w2 t1 (mid @ Progress d t # rest)"
    by simp
  also have "\<dots> = runTransfer P events w3 t1 (Progress d t # rest)"
    using run3 by (rule runTransfer_append)
  finally show ?thesis
    using f3 by simp
qed










subsection \<open>Pausing during the transfer, and a transfer that succeeds\<close>

lemma runTransfer_paused:
  "runTransfer P events w task ss = ((w', task'), Some (js ''PAUSED'')) \<Longrightarrow>
     status task' = PAUSED"
  by (induction P events w task ss arbitrary: w' task' rule: runTransfer.induct)
     (auto split: if_splits simp: Let_def)

definition pausedState :: "DownloadTask \<Rightarrow> DownloadState" where
  "pausedState task =
     \<lparr>ds_mediaId = mi_id (media task), ds_messageId = messageId (media task),
      ds_chatId = chatId (media task), ds_outputPath = outputPath task,
      ds_totalSize = fileSize (media task), ds_downloadedBytes = downloadedBytes task\<rparr>"

lemma caughtPaused_marker:
  "files (caughtPaused w task) = (files w)(outputPath task @ DOWNLOAD_STATE_SUFFIX \<mapsto> StateJson (pausedState task))"
  "trace (caughtPaused w task) = trace w"
  by (simp_all add: caughtPaused_def saveDownloadState_def pausedState_def)

definition pauseEnv :: "nat \<Rightarrow> attempt" where
  "pauseEnv k =
     \<lparr>a_client = True, a_getEntity = Returns (), a_getMessages = Returns (Some [Message True]),
      a_steps = [Progress 10 100, PauseCall (js ''t1''), Progress 20 100],
      a_downloadMedia = Returns (Some [1, 2, 3])\<rparr>"

definition progressEnv :: "nat \<Rightarrow> attempt" where
  "progressEnv k =
     \<lparr>a_client = True, a_getEntity = Returns (), a_getMessages = Returns (Some [Message True]),
      a_steps = [Progress 50 100, CancelCall (js ''t2''), Progress 100 100],
      a_downloadMedia = Returns (Some [1, 2, 3])\<rparr>"

text \<open>
  X2. For an entry into \<open>executeDownload\<close> that reaches the transfer: if the progress callback
  observes the pause flag of the task (it throws \<open>PAUSED\<close>), the execution returns with the
  status \<open>PAUSED\<close> and a resume marker at \<open>outputPath + ".dlstate"\<close> that records the
  record, the output path, the size and the bytes downloaded so far, and that
  \<open>loadDownloadState\<close> reads back; the output path holds what it held when the transfer
  started, and \<open>onError\<close> is not invoked.
\<close>

theorem pause_persists_marker:
  assumes client: "a_client (env n)"
    and ok: "downloadable (media task) = DOWNLOADABLE"
    and fresh: "\<not> (skipExisting config \<and> fileExists (outputPath task) w)"
    and entity: "a_getEntity (env n) = Returns ()"
    and messages: "a_getMessages (env n) = Returns (Some (Message True # ms))"
    and observed: "snd (runTransfer P events w task (a_steps (env n))) = Some (js ''PAUSED'')"
  shows "\<exists>w' task'. executeDownload P config events env n w task = Inr (w', task')
           \<and> status task' = PAUSED
           \<and> loadDownloadState (outputPath task) w' = Some (pausedState task')
           \<and> outputPath task' = outputPath task \<and> media task' = media task
           \<and> files w' (outputPath task)
               = files (ensureDir (path_dirname P (outputPath task)) w) (outputPath task)
           \<and> filter isOnError (trace w') = filter isOnError (trace w)"
proof -
  let ?t1 = "task\<lparr>status := DOWNLOADING\<rparr>"
  let ?w4 = "transferStart P events w task"
  obtain w5 t5 r where run: "runTransfer P events ?w4 ?t1 (a_steps (env n)) = ((w5, t5), r)"
    by (metis surj_pair)
  have "snd (runTransfer P events ?w4 ?t1 (a_steps (env n)))
          = snd (runTransfer P events w task (a_steps (env n)))"
    by (rule runTransfer_signal) (simp_all add: transferStart_flags)
  with run observed have r: "r = Some (js ''PAUSED'')"
    by simp
  have tb: "tryBlock P events (env n) (emit (onStart events) (OnStart (t_id task)) w) ?t1
              = ((w5, t5), Some (js ''PAUSED''))"
    by (simp add: tryBlock_transfer [OF entity messages] run r)
  have exec: "executeDownload P config events env n w task = Inr (caughtPaused w5 t5, t5)"
    using client ok fresh by (subst executeDownload.simps) (auto simp: Let_def tb)
  have st: "status t5 = PAUSED"
    using run r by (auto dest: runTransfer_paused)
  have un: "untouched ?w4 ?t1 w5 t5"
    using run by (rule runTransfer_untouched)
  then have keep: "outputPath t5 = outputPath task" "media t5 = media task"
    and err: "filter isOnError (trace w5) = filter isOnError (trace w)"
    and fl: "files w5 = files (ensureDir (path_dirname P (outputPath task)) w)"
    by (simp_all add: untouched_def transferStart_onError transferStart_files)
  have other: "outputPath task @ DOWNLOAD_STATE_SUFFIX \<noteq> outputPath task"
    using suffix_nonempty by simp
  show ?thesis
    using exec st keep err fl other
    by (simp add: caughtPaused_marker loadDownloadState_def)
qed

theorem pause_persists_marker_witness:
  "a_client (pauseEnv 0)
   \<and> downloadable (media exampleTask) = DOWNLOADABLE
   \<and> \<not> fileExists (outputPath exampleTask) emptyWorld
   \<and> snd (runTransfer examplePlatform allEvents emptyWorld exampleTask (a_steps (pauseEnv 0)))
       = Some (js ''PAUSED'')
   \<and> (\<exists>w' task'. executeDownload examplePlatform (DEFAULT_DOWNLOAD_CONFIG examplePlatform)
                     allEvents pauseEnv 0 emptyWorld exampleTask = Inr (w', task')
          \<and> status task' = PAUSED
          \<and> loadDownloadState (outputPath exampleTask) w' = Some (pausedState task')
          \<and> files w' (outputPath exampleTask) = None
          \<and> filter isOnError (trace w') = [])"
proof -
  have client: "a_client (pauseEnv 0)"
    by (simp add: pauseEnv_def)
  have verdict: "downloadable (media exampleTask) = DOWNLOADABLE"
    by (simp add: exampleTask_def exampleMedia_def)
  have absent: "\<not> fileExists (outputPath exampleTask) emptyWorld"
    by (simp add: emptyWorld_def fileExists_def)
  then have fresh: "\<not> (skipExisting (DEFAULT_DOWNLOAD_CONFIG examplePlatform)
                        \<and> fileExists (outputPath exampleTask) emptyWorld)"
    by simp
  have entity: "a_getEntity (pauseEnv 0) = Returns ()"
    and messages: "a_getMessages (pauseEnv 0) = Returns (Some (Message True # []))"
    by (simp_all add: pauseEnv_def)
  have observed: "snd (runTransfer examplePlatform allEvents emptyWorld exampleTask
                         (a_steps (pauseEnv 0))) = Some (js ''PAUSED'')"
    by (simp add: pauseEnv_def exampleTask_def emptyWorld_def pauseDownload_def emit_def Let_def)
  have dir: "files (ensureDir (path_dirname examplePlatform (outputPath exampleTask)) emptyWorld)
               (outputPath exampleTask) = None"
    by (simp add: ensureDir_def emptyWorld_def fileExists_def exampleTask_def examplePlatform_def
          js_def slash_def)
  have start: "filter isOnError (trace emptyWorld) = []"
    by (simp add: emptyWorld_def)
  from pause_persists_marker [where env = pauseEnv and n = 0 and task = exampleTask
      and P = examplePlatform and config = "DEFAULT_DOWNLOAD_CONFIG examplePlatform"
      and events = allEvents and w = emptyWorld and ms = "[]",
      OF client verdict fresh entity messages observed]
  show ?thesis
    using client verdict absent observed dir start by auto
qed

text \<open>
  X3. For an entry into \<open>executeDownload\<close> that reaches the transfer with the control flags of
  the task unset and not set during the transfer: if \<open>downloadMedia\<close> returns a buffer, the
  execution returns with the status \<open>COMPLETED\<close>, \<open>progress = 100\<close> and
  \<open>downloadedBytes\<close> equal to the size of the record; the buffer is the content of the
  output path, \<open>onError\<close> is not invoked, and no resume marker remains when the entry at the
  marker path, if any, can be unlinked.
\<close>

theorem transfer_completes:
  assumes client: "a_client (env n)"
    and ok: "downloadable (media task) = DOWNLOADABLE"
    and fresh: "\<not> (skipExisting config \<and> fileExists (outputPath task) w)"
    and entity: "a_getEntity (env n) = Returns ()"
    and messages: "a_getMessages (env n) = Returns (Some (Message True # ms))"
    and flags: "t_id task \<notin> pausedTasks w" "t_id task \<notin> cancelledTasks w"
    and quiet: "quietFor (t_id task) (a_steps (env n))"
    and delivered: "a_downloadMedia (env n) = Returns (Some buffer)"
  shows "\<exists>w' task'. executeDownload P config events env n w task = Inr (w', task')
           \<and> status task' = COMPLETED
           \<and> progress task' = 100
           \<and> downloadedBytes task' = fileSize (media task)
           \<and> retryCount task' = retryCount task
           \<and> files w' (outputPath task) = Some (Bytes buffer)
           \<and> (removable (outputPath task @ DOWNLOAD_STATE_SUFFIX)
                  (ensureDir (path_dirname P (outputPath task)) w)
                \<longrightarrow> files w' (outputPath task @ DOWNLOAD_STATE_SUFFIX) = None)
           \<and> filter isOnError (trace w') = filter isOnError (trace w)"
proof -
  let ?t1 = "task\<lparr>status := DOWNLOADING\<rparr>"
  let ?w4 = "transferStart P events w task"
  from quiet_run [of ?t1 ?w4 "a_steps (env n)" P events] flags quiet
  obtain w5 t5 where run: "runTransfer P events ?w4 ?t1 (a_steps (env n)) = ((w5, t5), None)"
    by (auto simp: transferStart_flags)
  have un: "untouched ?w4 ?t1 w5 t5"
    using run by (rule runTransfer_untouched)
  then have keep: "outputPath t5 = outputPath task" "media t5 = media task"
      "t_id t5 = t_id task" "retryCount t5 = retryCount task"
    and err: "filter isOnError (trace w5) = filter isOnError (trace w)"
    and fl: "files w5 = files (ensureDir (path_dirname P (outputPath task)) w)"
      "undeletable w5 = undeletable w"
    by (simp_all add: untouched_def transferStart_onError transferStart_files
          transferStart_undeletable)
  let ?w6 = "w5\<lparr>files := (files w5)(outputPath t5 \<mapsto> Bytes buffer)\<rparr>"
  let ?w7 = "removeDownloadState (outputPath t5) ?w6"
  let ?t7 = "t5\<lparr>status := COMPLETED, progress := 100, downloadedBytes := fileSize (media t5)\<rparr>"
  have tb: "tryBlock P events (env n) (emit (onStart events) (OnStart (t_id task)) w) ?t1
              = ((emit (onComplete events) (OnComplete (t_id ?t7)) ?w7, ?t7), None)"
    by (simp add: tryBlock_transfer [OF entity messages] run delivered Let_def)
  have exec: "executeDownload P config events env n w task
                = Inr (emit (onComplete events) (OnComplete (t_id ?t7)) ?w7, ?t7)"
    using client ok fresh by (subst executeDownload.simps) (auto simp: Let_def tb)
  have other: "outputPath task @ DOWNLOAD_STATE_SUFFIX \<noteq> outputPath task"
    using suffix_nonempty by simp
  have f7: "files ?w7 (outputPath task) = Some (Bytes buffer)"
    "removable (outputPath task @ DOWNLOAD_STATE_SUFFIX)
       (ensureDir (path_dirname P (outputPath task)) w)
     \<longrightarrow> files ?w7 (outputPath task @ DOWNLOAD_STATE_SUFFIX) = None"
    "trace ?w7 = trace w5"
    using other keep fl
    by (auto simp: removeDownloadState_def unlink_def fileExists_def removable_def
          ensureDir_def Let_def)
  show ?thesis
    using exec keep err f7 by (simp add: emit_def isOnError_def)
qed

theorem transfer_completes_witness:
  "a_client (progressEnv 0)
   \<and> downloadable (media exampleTask) = DOWNLOADABLE
   \<and> \<not> fileExists (outputPath exampleTask) emptyWorld
   \<and> quietFor (t_id exampleTask) (a_steps (progressEnv 0))
   \<and> a_downloadMedia (progressEnv 0) = Returns (Some [1, 2, 3])
   \<and> removable (outputPath exampleTask @ DOWNLOAD_STATE_SUFFIX)
        (ensureDir (path_dirname examplePlatform (outputPath exampleTask)) emptyWorld)
   \<and> (\<exists>w' task'. executeDownload examplePlatform (DEFAULT_DOWNLOAD_CONFIG examplePlatform)
                     allEvents progressEnv 0 emptyWorld exampleTask = Inr (w', task')
          \<and> status task' = COMPLETED
          \<and> progress task' = 100
          \<and> downloadedBytes task' = 1000
          \<and> files w' (outputPath exampleTask) = Some (Bytes [1, 2, 3])
          \<and> files w' (outputPath exampleTask @ DOWNLOAD_STATE_SUFFIX) = None)"
proof -
  have client: "a_client (progressEnv 0)"
    by (simp add: progressEnv_def)
  have verdict: "downloadable (media exampleTask) = DOWNLOADABLE"
    by (simp add: exampleTask_def exampleMedia_def)
  have absent: "\<not> fileExists (outputPath exampleTask) emptyWorld"
    by (simp add: emptyWorld_def fileExists_def)
  then have fresh: "\<not> (skipExisting (DEFAULT_DOWNLOAD_CONFIG examplePlatform)
                        \<and> fileExists (outputPath exampleTask) emptyWorld)"
    by simp
  have entity: "a_getEntity (progressEnv 0) = Returns ()"
    and messages: "a_getMessages (progressEnv 0) = Returns (Some (Message True # []))"
    and delivered: "a_downloadMedia (progressEnv 0) = Returns (Some [1, 2, 3])"
    by (simp_all add: progressEnv_def)
  have flags: "t_id exampleTask \<notin> pausedTasks emptyWorld"
    "t_id exampleTask \<notin> cancelledTasks emptyWorld"
    by (simp_all add: emptyWorld_def)
  have quiet: "quietFor (t_id exampleTask) (a_steps (progressEnv 0))"
    by (simp add: progressEnv_def quietFor_def exampleTask_def js_def)
  have size: "fileSize (media exampleTask) = 1000"
    by (simp add: exampleTask_def exampleMedia_def)
  have free: "removable (outputPath exampleTask @ DOWNLOAD_STATE_SUFFIX)
                (ensureDir (path_dirname examplePlatform (outputPath exampleTask)) emptyWorld)"
    by (simp add: removable_def ensureDir_def fileExists_def exampleTask_def emptyWorld_def
          examplePlatform_def DOWNLOAD_STATE_SUFFIX_def js_def slash_def)
  from transfer_completes [where env = progressEnv and n = 0 and task = exampleTask
      and P = examplePlatform and config = "DEFAULT_DOWNLOAD_CONFIG examplePlatform"
      and events = allEvents and w = emptyWorld and ms = "[]" and buffer = "[1, 2, 3]",
      OF client verdict fresh entity messages flags quiet delivered]
  show ?thesis
    using client verdict absent quiet delivered size free by auto
qed

subsection \<open>Retries\<close>

text \<open>A task as \<open>createDownloadTask\<close> makes it: pending, with no retry counted.\<close>

lemma createDownloadTask_new:
  "createDownloadTask P newId store m config custom (r, w) = (task, r', w') \<Longrightarrow>
     status task = PENDING \<and> retryCount task = 0 \<and> progress task = 0 \<and> error task = None
     \<and> media task = m \<and> t_id task = newId
     \<and> outputPath task
         = fst (generateOutputPath P m (spread (getDownloadConfig P store) config) custom w)"
  by (auto simp: createDownloadTask_def Let_def split: prod.splits)


definition failingEnv :: "nat \<Rightarrow> attempt" where
  "failingEnv k =
     \<lparr>a_client = True, a_getEntity = Returns (), a_getMessages = Returns (Some [Message True]),
      a_steps = [Progress 10 100, PauseCall (js ''t2'')],
      a_downloadMedia = Throws (js ''timeout '' @ decimal (int k))\<rparr>"

text \<open>
  C2. A new task (\<open>retryCount = 0\<close>) is executed; its record is downloadable, its control flags
  are not set and are not set during the execution, and the existing-file shortcut does not
  apply (a condition on the file system that the failing attempts keep: they create the
  directory of the output path only). Every attempt finds a client and the message, and its
  transfer fails with a description \<open>msg k\<close> that is neither \<open>PAUSED\<close> nor
  \<open>CANCELLED\<close>. Then the execution returns with the status \<open>FAILED\<close>, the error
  \<open>msg (maxRetries)\<close> of the last attempt, and \<open>retryCount = maxRetries\<close>; and its schedule
  is: the first attempt, then for \<open>k = 1, \<dots>, maxRetries\<close> a wait of \<open>retryDelay * k\<close>
  milliseconds followed by the \<open>k\<close>-th retry.
\<close>

theorem retry_exhaustion:
  assumes "\<forall>k. a_client (env k) \<and> transferFails (env k) (msg k)
               \<and> msg k \<noteq> js ''PAUSED'' \<and> msg k \<noteq> js ''CANCELLED''
               \<and> quietFor (t_id task) (a_steps (env k))"
    and "t_id task \<notin> pausedTasks w" and "t_id task \<notin> cancelledTasks w"
    and "downloadable (media task) = DOWNLOADABLE"
    and "skipExisting config \<longrightarrow>
           files w (outputPath task) = None \<and> path_dirname P (outputPath task) \<noteq> outputPath task"
    and "retryCount task = 0"
  shows "\<exists>w' task'. executeDownload P config events env 0 w task = Inr (w', task')
           \<and> status task' = FAILED
           \<and> error task' = Some (msg (maxRetries config))
           \<and> retryCount task' = maxRetries config
           \<and> filter isSchedule (trace w')
               = filter isSchedule (trace w) @ GetEntity (chatId (media task))
                   # concat (map (\<lambda>k. [Delay (retryDelay config * int k),
                                         GetEntity (chatId (media task))])
                               [1 ..< Suc (maxRetries config)])"
proof -
  have env: "\<And>k. a_client (env k) \<and> transferFails (env k) (msg k)
                 \<and> msg k \<noteq> js ''PAUSED'' \<and> msg k \<noteq> js ''CANCELLED''
                 \<and> quietFor (t_id task) (a_steps (env k))"
    using assms(1) by blast
  have count: "retryCount task \<le> maxRetries config"
    using assms(6) by simp
  from retries_exhausted [of env msg "t_id task" task w config P events 0,
      OF env refl assms(2) assms(3) assms(4) assms(5) count]
  show ?thesis
    using assms(6) by auto
qed

text \<open>Three retries with a delay of 2000 ms: four attempts, waits of 2000, 4000 and 6000 ms,
  and the error of the fourth attempt.\<close>

theorem retry_exhaustion_witness:
  "(\<forall>k. a_client (failingEnv k)
        \<and> transferFails (failingEnv k) (js ''timeout '' @ decimal (int k))
        \<and> js ''timeout '' @ decimal (int k) \<noteq> js ''PAUSED''
        \<and> js ''timeout '' @ decimal (int k) \<noteq> js ''CANCELLED''
        \<and> quietFor (t_id exampleTask) (a_steps (failingEnv k)))
   \<and> maxRetries (DEFAULT_DOWNLOAD_CONFIG examplePlatform) = 3
   \<and> retryDelay (DEFAULT_DOWNLOAD_CONFIG examplePlatform) = 2000
   \<and> (\<exists>w' task'. executeDownload examplePlatform (DEFAULT_DOWNLOAD_CONFIG examplePlatform)
                     allEvents failingEnv 0 emptyWorld exampleTask = Inr (w', task')
          \<and> status task' = FAILED
          \<and> error task' = Some (js ''timeout 3'')
          \<and> retryCount task' = 3
          \<and> filter isSchedule (trace w')
              = [GetEntity (js ''100''), Delay 2000, GetEntity (js ''100''), Delay 4000,
                 GetEntity (js ''100''), Delay 6000, GetEntity (js ''100'')])"
proof -
  have differ: "\<And>k. js ''timeout '' @ decimal (int k) \<noteq> js ''PAUSED''"
    "\<And>k. js ''timeout '' @ decimal (int k) \<noteq> js ''CANCELLED''"
    by (simp_all add: js_def)
  have env: "\<forall>k. a_client (failingEnv k)
        \<and> transferFails (failingEnv k) (js ''timeout '' @ decimal (int k))
        \<and> js ''timeout '' @ decimal (int k) \<noteq> js ''PAUSED''
        \<and> js ''timeout '' @ decimal (int k) \<noteq> js ''CANCELLED''
        \<and> quietFor (t_id exampleTask) (a_steps (failingEnv k))"
    using differ
    by (simp add: failingEnv_def transferFails_def quietFor_def exampleTask_def js_def)
  have flags: "t_id exampleTask \<notin> pausedTasks emptyWorld"
    "t_id exampleTask \<notin> cancelledTasks emptyWorld"
    by (simp_all add: emptyWorld_def)
  have verdict: "downloadable (media exampleTask) = DOWNLOADABLE"
    by (simp add: exampleTask_def exampleMedia_def)
  have fresh: "skipExisting (DEFAULT_DOWNLOAD_CONFIG examplePlatform) \<longrightarrow>
                 files emptyWorld (outputPath exampleTask) = None
                 \<and> path_dirname examplePlatform (outputPath exampleTask) \<noteq> outputPath exampleTask"
    by (simp add: emptyWorld_def exampleTask_def examplePlatform_def js_def slash_def)
  have new: "retryCount exampleTask = 0"
    by (simp add: exampleTask_def)
  have cfg: "maxRetries (DEFAULT_DOWNLOAD_CONFIG examplePlatform) = 3"
    "retryDelay (DEFAULT_DOWNLOAD_CONFIG examplePlatform) = 2000"
    by (simp_all add: DEFAULT_DOWNLOAD_CONFIG_def)
  have three: "decimal 3 = js ''3''"
    by (simp add: decimal_def js_def)
  have upt: "[1 ..< Suc 3] = [1, 2, 3]"
    by (simp add: upt_rec)
  have chat: "chatId (media exampleTask) = js ''100''" "trace emptyWorld = []"
    by (simp_all add: exampleTask_def exampleMedia_def emptyWorld_def)
  from retry_exhaustion [where env = failingEnv
      and msg = "\<lambda>k. js ''timeout '' @ decimal (int k)" and task = exampleTask
      and P = examplePlatform and config = "DEFAULT_DOWNLOAD_CONFIG examplePlatform"
      and events = allEvents and w = emptyWorld, OF env flags verdict fresh new]
  show ?thesis
    using env cfg three upt chat by (auto simp: js_def)
qed

section \<open>The rendered file name\<close>

definition longTemplate :: jsstring where
  "longTemplate = 0x61 # replicate 198 0x61 @ js ''_b''"

lemma collapseRuns_prefix:
  "\<forall>c \<in> set xs. \<not> p c \<Longrightarrow> collapseRuns p (xs @ ys) = xs @ collapseRuns p ys"
  by (induction xs) simp_all

lemma collapseRuns_none: "\<forall>c \<in> set xs. \<not> p c \<Longrightarrow> collapseRuns p xs = xs"
  using collapseRuns_prefix [of xs p "[]"] by simp

lemma replaceAll_absent:
  "pat \<noteq> [] \<Longrightarrow> hd pat \<notin> set s \<Longrightarrow> replaceAll_from pat repl b s = s"
proof (induction s arbitrary: b)
  case Nil
  then show ?case by (simp add: replaceAll_from.simps)
next
  case (Cons c s)
  from Cons.prems have "take (length pat) (c # s) \<noteq> pat"
    by (cases pat) auto
  with Cons show ?case
    by (subst replaceAll_from.simps) simp
qed

lemma longTemplate_units: "set longTemplate = {0x61, us, 0x62}"
  by (auto simp: longTemplate_def js_def us_def)

lemma sanitize_long: "sanitizeFileName longTemplate = 0x61 # replicate 198 0x61 @ [us]"
proof -
  have legal: "\<forall>c \<in> set longTemplate. \<not> isIllegal c"
    and nospace: "\<forall>c \<in> set longTemplate. \<not> isSpace c"
    by (simp_all add: longTemplate_units isIllegal_def isSpace_def us_def)
  have "map (\<lambda>c. if isIllegal c then us else c) longTemplate = longTemplate"
    using legal by (simp add: map_idI)
  moreover have "collapseRuns isSpace longTemplate = longTemplate"
    using nospace by (rule collapseRuns_none)
  moreover have "collapseRuns (\<lambda>c. c = us) longTemplate = longTemplate"
    using collapseRuns_prefix [of "0x61 # replicate 198 0x61" "\<lambda>c. c = us" "js ''_b''"]
    by (simp add: longTemplate_def js_def us_def)
  moreover have "trimEdges longTemplate = longTemplate"
    by (simp add: trimEdges_def longTemplate_def js_def us_def)
  moreover have "take 200 longTemplate = 0x61 # replicate 198 0x61 @ [us]"
    by (simp add: longTemplate_def js_def us_def)
  ultimately show ?thesis
    by (simp add: sanitizeFileName_def)
qed

text \<open>Two consecutive underscores somewhere in a text.\<close>

fun doubled :: "jsstring \<Rightarrow> bool" where
  "doubled (a # b # r) \<longleftrightarrow> (a = us \<and> b = us) \<or> doubled (b # r)"
| "doubled [a] \<longleftrightarrow> False"
| "doubled [] \<longleftrightarrow> False"

lemma doubled_Cons: "doubled (a # xs) \<longleftrightarrow> (xs \<noteq> [] \<and> a = us \<and> hd xs = us) \<or> doubled xs"
  by (cases xs) auto

lemma doubled_append: "doubled xs \<Longrightarrow> doubled (xs @ ys)"
  by (induction xs rule: doubled.induct) auto

lemma doubled_take: "doubled (take n xs) \<Longrightarrow> doubled xs"
  by (metis append_take_drop_id doubled_append)

lemma doubled_butlast: "doubled (butlast xs) \<Longrightarrow> doubled xs"
  by (metis append_butlast_last_id butlast.simps(1) doubled_append)

lemma doubled_tl: "doubled (tl xs) \<Longrightarrow> doubled xs"
  by (cases xs) (auto simp: doubled_Cons)

lemma collapseRuns_Nil: "collapseRuns p xs = [] \<longleftrightarrow> xs = []"
  by (cases xs) auto

lemma collapseRuns_hd:
  "xs \<noteq> [] \<Longrightarrow> hd (collapseRuns p xs) = (if p (hd xs) then us else hd xs)"
  by (cases xs) auto

lemma collapse_not_doubled: "\<not> doubled (collapseRuns (\<lambda>c. c = us) xs)"
proof (induction "\<lambda>c. c = us" xs rule: collapseRuns.induct)
  case 1
  then show ?case by simp
next
  case (2 c cs)
  show ?case
  proof (cases "c = us")
    case True
    let ?ys = "dropWhile (\<lambda>c. c = us) cs"
    have "?ys \<noteq> [] \<Longrightarrow> hd ?ys \<noteq> us"
      using hd_dropWhile [of "\<lambda>c. c = us" cs] by simp
    then have "?ys \<noteq> [] \<Longrightarrow> hd (collapseRuns (\<lambda>c. c = us) ?ys) \<noteq> us"
      by (simp add: collapseRuns_hd)
    with True 2 show ?thesis
      by (auto simp: doubled_Cons collapseRuns_Nil)
  next
    case False
    with 2 show ?thesis
      by (simp add: doubled_Cons)
  qed
qed

lemma trimEdges_not_doubled: "\<not> doubled xs \<Longrightarrow> \<not> doubled (trimEdges xs)"
  by (auto simp: trimEdges_def Let_def doubled_Cons split: list.splits dest: doubled_butlast)

lemma sanitize_not_doubled: "\<not> doubled (sanitizeFileName s)"
  unfolding sanitizeFileName_def
  using collapse_not_doubled trimEdges_not_doubled doubled_take by blast

lemma collapseRuns_set: "set (collapseRuns p xs) \<subseteq> insert us {c \<in> set xs. \<not> p c}"
proof (induction p xs rule: collapseRuns.induct)
  case (1 p)
  then show ?case by simp
next
  case (2 p c cs)
  have "set (dropWhile p cs) \<subseteq> set cs"
    by (simp add: set_dropWhileD subsetI)
  with 2 show ?case by (auto split: if_splits)
qed

lemma trimEdges_set: "set (trimEdges xs) \<subseteq> set xs"
  by (auto simp: trimEdges_def Let_def split: list.splits dest: in_set_butlastD)

lemma us_plain: "\<not> isIllegal us" "\<not> isSpace us"
  by (simp_all add: isIllegal_def isSpace_def us_def)

lemma sanitize_clean:
  assumes "c \<in> set (sanitizeFileName s)"
  shows "\<not> isIllegal c \<and> \<not> isSpace c"
proof -
  let ?a = "map (\<lambda>c. if isIllegal c then us else c) s"
  let ?b = "collapseRuns isSpace ?a"
  let ?c = "collapseRuns (\<lambda>c. c = us) ?b"
  have a: "\<forall>x \<in> set ?a. \<not> isIllegal x"
    by (auto simp: us_plain)
  have b: "\<forall>x \<in> set ?b. \<not> isIllegal x \<and> \<not> isSpace x"
    using collapseRuns_set [of isSpace ?a] a us_plain by blast
  have "set ?c \<subseteq> insert us (set ?b)"
    using collapseRuns_set [of "\<lambda>c. c = us" ?b] by blast
  with b have c: "\<forall>x \<in> set ?c. \<not> isIllegal x \<and> \<not> isSpace x"
    using us_plain by blast
  from assms have "c \<in> set (trimEdges ?c)"
    unfolding sanitizeFileName_def by (rule in_set_takeD)
  with trimEdges_set [of ?c] c show ?thesis
    by blast
qed

lemma hd_butlast_nonempty: "butlast xs \<noteq> [] \<Longrightarrow> hd (butlast xs) = hd xs"
  by (cases xs) (auto split: if_splits)

lemma trimEdges_front:
  assumes "\<not> doubled xs" and "trimEdges xs \<noteq> []"
  shows "hd (trimEdges xs) \<noteq> us"
proof -
  let ?s1 = "case xs of [] \<Rightarrow> [] | c # cs \<Rightarrow> if c = us then cs else xs"
  have s1: "?s1 = [] \<or> hd ?s1 \<noteq> us"
    using assms(1) by (auto simp: doubled_Cons split: list.splits)
  have t: "trimEdges xs = (if ?s1 \<noteq> [] \<and> last ?s1 = us then butlast ?s1 else ?s1)"
    by (simp add: trimEdges_def Let_def)
  show ?thesis
  proof (cases "?s1 \<noteq> [] \<and> last ?s1 = us")
    case True
    with t assms(2) have ne: "butlast ?s1 \<noteq> []" by simp
    then have "hd (butlast ?s1) = hd ?s1"
      by (rule hd_butlast_nonempty)
    with True t s1 show ?thesis by simp
  next
    case False
    with t s1 assms(2) show ?thesis by auto
  qed
qed

lemma not_doubled_last:
  "\<not> doubled xs \<Longrightarrow> last xs = us \<Longrightarrow> butlast xs \<noteq> [] \<Longrightarrow> last (butlast xs) \<noteq> us"
proof (induction xs rule: doubled.induct)
  case (1 a b r)
  then show ?case
    by (cases r) (auto split: if_splits)
qed simp_all

lemma trimEdges_back:
  assumes "\<not> doubled xs" and "trimEdges xs \<noteq> []"
  shows "last (trimEdges xs) \<noteq> us"
proof -
  let ?s1 = "case xs of [] \<Rightarrow> [] | c # cs \<Rightarrow> if c = us then cs else xs"
  have nd: "\<not> doubled ?s1"
    using assms(1) by (auto simp: doubled_Cons split: list.splits)
  have t: "trimEdges xs = (if ?s1 \<noteq> [] \<and> last ?s1 = us then butlast ?s1 else ?s1)"
    by (simp add: trimEdges_def Let_def)
  show ?thesis
  proof (cases "?s1 \<noteq> [] \<and> last ?s1 = us")
    case True
    with t assms(2) have "butlast ?s1 \<noteq> []" by simp
    with nd True have "last (butlast ?s1) \<noteq> us"
      by (intro not_doubled_last) simp_all
    with True t show ?thesis by simp
  next
    case False
    with t assms(2) show ?thesis by auto
  qed
qed

text \<open>
  X1. What holds of every name that \<open>generateFileName\<close> returns, for every template and every
  assignment of the variables: it has at most 200 code units; none of them is an illegal
  character or white space; no two consecutive ones are underscores; it does not start with an
  underscore; and it does not end with an underscore when it is shorter than 200 code units (so
  was not cut).
\<close>

theorem rendered_name_properties:
  "length (generateFileName template vars) \<le> 200
   \<and> list_all (\<lambda>c. \<not> isIllegal c \<and> \<not> isSpace c) (generateFileName template vars)
   \<and> \<not> doubled (generateFileName template vars)
   \<and> (generateFileName template vars \<noteq> [] \<longrightarrow> hd (generateFileName template vars) \<noteq> us)
   \<and> (generateFileName template vars \<noteq> [] \<and> length (generateFileName template vars) < 200
        \<longrightarrow> last (generateFileName template vars) \<noteq> us)"
proof -
  obtain s where r: "generateFileName template vars = sanitizeFileName s"
    by (simp add: generateFileName_def Let_def)
  let ?t = "trimEdges (collapseRuns (\<lambda>c. c = us)
              (collapseRuns isSpace (map (\<lambda>c. if isIllegal c then us else c) s)))"
  have cut: "sanitizeFileName s = take 200 ?t"
    by (simp add: sanitizeFileName_def)
  have nd: "\<not> doubled (collapseRuns (\<lambda>c. c = us)
              (collapseRuns isSpace (map (\<lambda>c. if isIllegal c then us else c) s)))"
    by (rule collapse_not_doubled)
  have len: "length (sanitizeFileName s) \<le> 200"
    by (simp add: cut)
  have clean: "list_all (\<lambda>c. \<not> isIllegal c \<and> \<not> isSpace c) (sanitizeFileName s)"
    using sanitize_clean by (simp add: list_all_iff)
  have front: "sanitizeFileName s \<noteq> [] \<longrightarrow> hd (sanitizeFileName s) \<noteq> us"
  proof
    assume "sanitizeFileName s \<noteq> []"
    then have "?t \<noteq> []" by (auto simp: cut)
    with trimEdges_front [OF nd] have "hd ?t \<noteq> us" by simp
    then show "hd (sanitizeFileName s) \<noteq> us" by (simp add: cut)
  qed
  have rear: "sanitizeFileName s \<noteq> [] \<and> length (sanitizeFileName s) < 200
                \<longrightarrow> last (sanitizeFileName s) \<noteq> us"
  proof
    assume a: "sanitizeFileName s \<noteq> [] \<and> length (sanitizeFileName s) < 200"
    then have whole: "sanitizeFileName s = ?t"
      by (simp add: cut min_def split: if_splits)
    with a trimEdges_back [OF nd] show "last (sanitizeFileName s) \<noteq> us" by simp
  qed
  show ?thesis
    using len clean sanitize_not_doubled [of s] front rear by (simp only: r) blast
qed

text \<open>The default template on the example variables.\<close>

theorem rendered_name_properties_witness:
  "generateFileName (js ''{chatTitle}_{date}_{id}.{extension}'') exampleVars
     = js ''chat_2024-01-02_m1.mp4''
   \<and> generateFileName (js ''{chatTitle}_{date}_{id}.{extension}'') exampleVars \<noteq> []
   \<and> length (generateFileName (js ''{chatTitle}_{date}_{id}.{extension}'') exampleVars) < 200
   \<and> hd (generateFileName (js ''{chatTitle}_{date}_{id}.{extension}'') exampleVars) \<noteq> us
   \<and> last (generateFileName (js ''{chatTitle}_{date}_{id}.{extension}'') exampleVars) \<noteq> us"
proof -
  have r: "generateFileName (js ''{chatTitle}_{date}_{id}.{extension}'') exampleVars
             = js ''chat_2024-01-02_m1.mp4''"
    by code_simp
  have short: "js ''chat_2024-01-02_m1.mp4'' \<noteq> []" "length (js ''chat_2024-01-02_m1.mp4'') < 200"
    by (simp_all add: js_def)
  from rendered_name_properties [of "js ''{chatTitle}_{date}_{id}.{extension}''" exampleVars]
  show ?thesis
    using short by (simp add: r)
qed

text \<open>
  C9 at a template of 201 code units whose 200th is an underscore: \<open>a\<close> 199 times, then
  \<open>_b\<close>. The template has no placeholder, no illegal character, no white space and a single
  underscore inside, so the replacements and the trimming change nothing; the cut to 200 code
  units then removes the \<open>b\<close>, and the name that \<open>generateFileName\<close> returns ends with the
  underscore.
\<close>

theorem rendered_name_trailing_underscore:
  "length longTemplate = 201
   \<and> generateFileName longTemplate exampleVars = 0x61 # replicate 198 0x61 @ [us]
   \<and> length (generateFileName longTemplate exampleVars) = 200
   \<and> last (generateFileName longTemplate exampleVars) = us"
proof -
  have brace: "0x7B \<notin> set longTemplate"
    by (simp add: longTemplate_units us_def)
  have "generateFileName longTemplate exampleVars = sanitizeFileName longTemplate"
    using brace
    by (simp add: generateFileName_def replaceAll_def replaceAll_absent js_def Let_def)
  then show ?thesis
    by (simp add: sanitize_long) (simp add: longTemplate_def js_def)
qed

section \<open>The configured concurrency\<close>

text \<open>The bound is the \<open>concurrentDownloads\<close> of the argument when it has one, and the stored
  one otherwise, as it is.\<close>

lemma downloadAll_limit_value:
  "downloadAll_limit P store config
     = pLimit (case p_concurrentDownloads config of
                 Some v \<Rightarrow> v
               | None \<Rightarrow> concurrentDownloads (getDownloadConfig P store))"
  by (simp add: downloadAll_limit_def spread_def Let_def)

text \<open>
  C6 at the value 50. Neither \<open>updateDownloadConfig\<close> nor \<open>downloadAll\<close> looks at the
  range of \<open>concurrentDownloads\<close>: stored through \<open>updateDownloadConfig\<close>, or passed as
  the \<open>config\<close> argument of \<open>downloadAll\<close>, the value 50 becomes the bound of the limiter
  under which the batch runs.
\<close>

theorem concurrency_not_clamped:
  "downloadAll_limit examplePlatform
     (updateDownloadConfig examplePlatform (noUpdates\<lparr>p_concurrentDownloads := Some 50\<rparr>) None)
     noUpdates = Inr 50
   \<and> downloadAll_limit examplePlatform None (noUpdates\<lparr>p_concurrentDownloads := Some 50\<rparr>)
       = Inr 50"
  by (simp add: downloadAll_limit_def updateDownloadConfig_def saveDownloadConfig_def
        getDownloadConfig_def spread_def noUpdates_def pLimit_def)

section \<open>Cleaning the registry\<close>

definition finished :: "jsstring \<times> DownloadTask \<Rightarrow> bool" where
  "finished e \<longleftrightarrow> status (snd e) = COMPLETED \<or> status (snd e) = CANCELLED"

definition clearStep :: "registry \<Rightarrow> jsstring \<times> DownloadTask \<Rightarrow> registry" where
  "clearStep acc e = (if finished e then map_delete (fst e) acc else acc)"

definition finishedKeys :: "registry \<Rightarrow> jsstring set" where
  "finishedKeys xs = fst ` {x \<in> set xs. finished x}"

definition exampleRegistry :: registry where
  "exampleRegistry =
     [(js ''a'', exampleTask\<lparr>t_id := js ''a'', status := COMPLETED\<rparr>),
      (js ''b'', exampleTask\<lparr>t_id := js ''b'', status := FAILED\<rparr>),
      (js ''c'', exampleTask\<lparr>t_id := js ''c'', status := CANCELLED\<rparr>),
      (js ''d'', exampleTask\<lparr>t_id := js ''d'', status := PAUSED\<rparr>)]"

lemma finishedKeys_Cons:
  "finishedKeys (x # xs)
     = (if finished x then insert (fst x) (finishedKeys xs) else finishedKeys xs)"
  by (auto simp: finishedKeys_def)

lemma clear_loop:
  "foldl clearStep acc xs = filter (\<lambda>e. fst e \<notin> finishedKeys xs) acc"
proof (induction xs arbitrary: acc)
  case Nil
  then show ?case by (simp add: finishedKeys_def)
next
  case (Cons x xs)
  then show ?case
    by (simp add: finishedKeys_Cons clearStep_def map_delete_def conj_commute)
qed

lemma clearCompletedTasks_fold: "clearCompletedTasks r = foldl clearStep r r"
  unfolding clearCompletedTasks_def clearStep_def finished_def ..

lemma distinct_key_finished:
  assumes "distinct (map fst r)" "e \<in> set r"
  shows "fst e \<in> finishedKeys r \<longleftrightarrow> finished e"
  unfolding finishedKeys_def
proof
  assume "fst e \<in> fst ` {x \<in> set r. finished x}"
  then obtain x where x: "x \<in> set r" "finished x" "fst x = fst e" by auto
  with assms have "x = e" by (meson distinct_map inj_onD)
  with x show "finished e" by simp
next
  assume "finished e"
  with assms show "fst e \<in> fst ` {x \<in> set r. finished x}" by auto
qed

text \<open>
  C10. The registry is a \<open>Map\<close>, so its keys are distinct. \<open>clearCompletedTasks\<close> keeps, in
  their order and unchanged, exactly the entries whose task is neither \<open>COMPLETED\<close> nor
  \<open>CANCELLED\<close>: the entries with status \<open>PENDING\<close>, \<open>DOWNLOADING\<close>, \<open>FAILED\<close> or
  \<open>PAUSED\<close>. A \<open>FAILED\<close> task stays.
\<close>

theorem clearCompletedTasks_exact:
  assumes "distinct (map fst r)"
  shows "clearCompletedTasks r
           = filter (\<lambda>e. status (snd e) \<noteq> COMPLETED \<and> status (snd e) \<noteq> CANCELLED) r
         \<and> set (clearCompletedTasks r)
             = {e \<in> set r. status (snd e) \<in> {PENDING, DOWNLOADING, FAILED, PAUSED}}"
proof -
  have "clearCompletedTasks r = filter (\<lambda>e. fst e \<notin> finishedKeys r) r"
    by (simp only: clearCompletedTasks_fold clear_loop)
  also have "\<dots> = filter (\<lambda>e. \<not> finished e) r"
    by (rule filter_cong) (simp_all add: distinct_key_finished [OF assms])
  finally have eq: "clearCompletedTasks r
      = filter (\<lambda>e. status (snd e) \<noteq> COMPLETED \<and> status (snd e) \<noteq> CANCELLED) r"
    by (simp add: finished_def)
  have "\<And>s. (s \<noteq> COMPLETED \<and> s \<noteq> CANCELLED) \<longleftrightarrow> s \<in> {PENDING, DOWNLOADING, FAILED, PAUSED}"
    by (case_tac s) simp_all
  with eq show ?thesis
    by auto
qed

theorem clearCompletedTasks_exact_witness:
  "distinct (map fst exampleRegistry)
   \<and> clearCompletedTasks exampleRegistry
       = [(js ''b'', exampleTask\<lparr>t_id := js ''b'', status := FAILED\<rparr>),
          (js ''d'', exampleTask\<lparr>t_id := js ''d'', status := PAUSED\<rparr>)]"
proof -
  have keys: "distinct (map fst exampleRegistry)"
    by (simp add: exampleRegistry_def js_def)
  from clearCompletedTasks_exact [OF keys] show ?thesis
    using keys by (simp add: exampleRegistry_def)
qed

end
